theory Spec2Isabelle
  imports Main "HOL-Library.Multiset" "HOL-Library.Sublist"
begin

section \<open>Platform functions of JavaScript used by the program\<close>

text \<open>
  JavaScript numbers are modelled as \<open>int\<close> (identifiers, counts and status codes are
  integers), strings as \<open>string\<close>. \<open>toString\<close> is \<open>Number.prototype.toString\<close> on
  integers, which is also what a template literal \<^verbatim>\<open>${n}\<close> produces.
\<close>

fun digits :: "nat \<Rightarrow> string" where
  "digits n =
     (if n < 10 then [''0123456789'' ! n]
      else digits (n div 10) @ [''0123456789'' ! (n mod 10)])"

declare digits.simps [simp del]

definition toString :: "int \<Rightarrow> string" where
  "toString n = (if n < 0 then ''-'' @ digits (nat (- n)) else digits (nat n))"

text \<open>\<open>String.prototype.padStart(n)\<close>: pads with spaces on the left up to length \<open>n\<close>.\<close>

definition padStart :: "nat \<Rightarrow> string \<Rightarrow> string" where
  "padStart n s = replicate (n - length s) (CHR '' '') @ s"

text \<open>\<open>String.prototype.includes\<close>: the argument occurs as a contiguous substring.\<close>

fun starts_with :: "string \<Rightarrow> string \<Rightarrow> bool" where
  "starts_with s [] = True"
| "starts_with [] (p # ps) = False"
| "starts_with (c # cs) (p # ps) = (c = p \<and> starts_with cs ps)"

fun str_includes :: "string \<Rightarrow> string \<Rightarrow> bool" where
  "str_includes [] p = starts_with [] p"
| "str_includes (c # cs) p = (starts_with (c # cs) p \<or> str_includes cs p)"

text \<open>\<open>Array.prototype.includes\<close> and \<open>Array.prototype.join\<close>.\<close>

fun arr_includes :: "'a list \<Rightarrow> 'a \<Rightarrow> bool" where
  "arr_includes [] y = False"
| "arr_includes (x # xs) y = (x = y \<or> arr_includes xs y)"

fun join :: "string \<Rightarrow> string list \<Rightarrow> string" where
  "join sep [] = []"
| "join sep [x] = x"
| "join sep (x # y # ys) = x @ sep @ join sep (y # ys)"

text \<open>
  A JavaScript \<open>Map\<close> keeps its entries in insertion order: an association list with
  one entry for each key. \<open>map_push m k x\<close> is \<^verbatim>\<open>m.get(k)?.push(x)\<close>, which appends
  to the array stored under \<open>k\<close> and does nothing when the key is absent.
\<close>

type_synonym ('k, 'v) js_map = "('k \<times> 'v) list"

fun map_has :: "('k, 'v) js_map \<Rightarrow> 'k \<Rightarrow> bool" where
  "map_has [] k = False"
| "map_has ((k', v) # m) k = (k' = k \<or> map_has m k)"

fun map_get :: "('k, 'v) js_map \<Rightarrow> 'k \<Rightarrow> 'v option" where
  "map_get [] k = None"
| "map_get ((k', v) # m) k = (if k' = k then Some v else map_get m k)"

fun map_set :: "('k, 'v) js_map \<Rightarrow> 'k \<Rightarrow> 'v \<Rightarrow> ('k, 'v) js_map" where
  "map_set [] k v = [(k, v)]"
| "map_set ((k', v') # m) k v = (if k' = k then (k', v) # m else (k', v') # map_set m k v)"

fun map_push :: "('k, 'a list) js_map \<Rightarrow> 'k \<Rightarrow> 'a \<Rightarrow> ('k, 'a list) js_map" where
  "map_push [] k x = []"
| "map_push ((k', v) # m) k x = (if k' = k then (k', v @ [x]) # m else (k', v) # map_push m k x)"

section \<open>GitLab API types (gitlab.ts)\<close>

datatype MRState = Closed | Merged | Open

datatype MergeStatus =
    Unchecked
  | Checking
  | Can_be_merged
  | Cannot_be_merged
  | Cannot_be_merged_recheck

text \<open>The string each \<open>MergeStatus\<close> value is at run time.\<close>

fun merge_status_str :: "MergeStatus \<Rightarrow> string" where
  "merge_status_str Unchecked = ''unchecked''"
| "merge_status_str Checking = ''checking''"
| "merge_status_str Can_be_merged = ''can_be_merged''"
| "merge_status_str Cannot_be_merged = ''cannot_be_merged''"
| "merge_status_str Cannot_be_merged_recheck = ''cannot_be_merged_recheck''"

record Author =
  author_id :: int
  author_name :: string
  username :: string

record MRApprovalStatus =
  approvals_required :: int
  approvals_left :: int
  as_id :: int
  as_iid :: int
  as_project_id :: int
  as_title :: string

record MergeRequest =
  approvals_needed :: int
  author :: Author
  blockers :: "string list"
  blocking_discussions_resolved :: bool
  draft :: bool
  has_conflicts :: bool
  iid :: int
  labels :: "string list"
  merge_status :: MergeStatus
  source_branch :: string
  state :: MRState
  title :: string
  web_url :: string
  work_in_progress :: bool

section \<open>The blocker deriver: \<open>GitLab.#findBlockers\<close>\<close>

text \<open>
  The source starts from an empty array and runs four \<open>if\<close> statements, each of which
  pushes one string; \<open>b0\<close> to \<open>b4\<close> are the successive contents of that array.
\<close>

definition findBlockers :: "MergeRequest \<Rightarrow> string list" where
  "findBlockers mr =
     (let threads_resolved = blocking_discussions_resolved mr;
          b0 = [];
          b1 = (if \<not> threads_resolved then b0 @ [''unresolved threads''] else b0);
          b2 = (if has_conflicts mr then b1 @ [''has conflicts''] else b1);
          b3 = (if str_includes (merge_status_str (merge_status mr)) ''cannot_be_merged''
                then b2 @ [''cannot be merged''] else b2);
          b4 = (if approvals_needed mr > 0
                then b3 @ [''requires approval ('' @ toString (approvals_needed mr) @ '')'']
                else b3)
      in b4)"

section \<open>Configuration and construction of the gateway (gitlab.ts, lines 64 to 104)\<close>

text \<open>
  Every \<open>Error\<close> the program can raise, with the data its message is built from.
  \<open>ConfigError\<close> is thrown by the constructor, \<open>StatusError\<close> is the rejection of
  \<open>#get\<close> on the status code, \<open>DecodeError\<close> is the \<open>SyntaxError\<close> of \<open>JSON.parse\<close>
  (with its message), \<open>TransportError\<close> is the argument of the request's \<open>error\<close>
  event, and \<open>FileError\<close> is a failure to read or parse the configuration file.
\<close>

datatype error =
    ConfigError string
  | StatusError int
  | DecodeError string
  | TransportError string
  | FileError string

fun message :: "error \<Rightarrow> string" where
  "message (ConfigError m) = m"
| "message (StatusError statusCode) = ''statusCode='' @ toString statusCode"
| "message (DecodeError m) = m"
| "message (TransportError m) = m"
| "message (FileError m) = m"

text \<open>
  The configuration is the value \<open>JSON.parse\<close> returned for the file: any field may
  be absent, and the whole value may be \<open>null\<close> (\<open>None\<close>). \<open>authors\<close> keeps the
  entries of the object in their order, as \<open>Object.values\<close> reads them.
\<close>

record GitLabConfig =
  cfg_api_token :: "string option"
  cfg_target_branch :: "string option"
  cfg_authors :: "(string \<times> int) list option"
  cfg_project_id :: "int option"

record GitLab =
  api_token :: string
  authors :: "(string \<times> int) list"
  project_id :: int
  target_branch :: string

text \<open>\<^verbatim>\<open>config?.f\<close>: \<open>undefined\<close> when the configuration is \<open>null\<close> or has no field \<open>f\<close>.\<close>

definition opt_field :: "'c option \<Rightarrow> ('c \<Rightarrow> 'a option) \<Rightarrow> 'a option" where
  "opt_field config f = (case config of None \<Rightarrow> None | Some c \<Rightarrow> f c)"

text \<open>\<^verbatim>\<open>!v\<close> on a string or a number that may be \<open>undefined\<close>.\<close>

definition falsy_str :: "string option \<Rightarrow> bool" where
  "falsy_str v = (case v of None \<Rightarrow> True | Some s \<Rightarrow> s = [])"

definition falsy_num :: "int option \<Rightarrow> bool" where
  "falsy_num v = (case v of None \<Rightarrow> True | Some n \<Rightarrow> n = 0)"

definition missing_api_token :: string where
  "missing_api_token =
     ''missing `api_token`: see https://docs.gitlab.com/ee/user/profile/personal_access_tokens.html''"

definition missing_project_id :: string where
  "missing_project_id =
     ''missing `project_id`: you can find Project ID in your project settings''"

text \<open>
  The constructor either throws (\<open>Inl\<close>) or returns the lines it wrote with
  \<open>console.warn\<close> together with the new object.
\<close>

definition constructor :: "GitLabConfig option \<Rightarrow> error + (string list \<times> GitLab)" where
  "constructor config =
     (if falsy_str (opt_field config cfg_api_token) then Inl (ConfigError missing_api_token)
      else if falsy_num (opt_field config cfg_project_id) then Inl (ConfigError missing_project_id)
      else
        (let w1 = (if (case opt_field config cfg_authors of None \<Rightarrow> True | Some a \<Rightarrow> length a < 1)
                   then [''missing or empty property `authors`'',
                         ''all open project MRs will be returned'']
                   else []);
             w2 = (if falsy_str (opt_field config cfg_target_branch)
                   then [''Configuration missing branch name; defaulting to main'']
                   else [])
         in Inr (w1 @ w2,
              \<lparr>api_token = (case opt_field config cfg_api_token of None \<Rightarrow> [] | Some t \<Rightarrow> t),
               authors = (case opt_field config cfg_authors of None \<Rightarrow> [] | Some a \<Rightarrow> a),
               project_id = (case opt_field config cfg_project_id of None \<Rightarrow> 0 | Some n \<Rightarrow> n),
               target_branch =
                 (case opt_field config cfg_target_branch of None \<Rightarrow> ''main'' | Some b \<Rightarrow> b)\<rparr>)))"

section \<open>The process and its environment\<close>

text \<open>
  What the process does to the outside: the lines written to standard output and to
  standard error, and the requests handed to \<open>https.get\<close>, each in order.
\<close>

record request =
  url :: string
  headers :: "(string \<times> string) list"

record world =
  stdout :: "string list"
  stderr :: "string list"
  requests :: "request list"

text \<open>
  How a request ends: the request emits \<open>error\<close>, or the response callback runs with
  \<open>res.statusCode\<close> (a number or \<open>undefined\<close>) and the body is read to its end.
\<close>

datatype outcome =
    NetError string
  | Response "int option" string

text \<open>
  Everything the run reads from outside. \<open>now k\<close> is \<open>Date.now() - log.start\<close> at the
  call of \<open>log\<close> that writes line \<open>k\<close> of standard error; \<open>rc_path\<close> is the expanded
  path of the configuration file and \<open>config_file\<close> the result of reading and parsing
  it; \<open>inspect\<close> is how \<open>console.warn\<close> prints the public fields of the gateway
  object; \<open>parse_mrs\<close> and \<open>parse_approvals\<close> are \<open>JSON.parse\<close> at the two types
  \<open>#get\<close> is used at (\<open>Inl\<close> is the message of the \<open>SyntaxError\<close>); \<open>listing\<close> and
  \<open>approval i\<close> are how the listing request and the approval request of the item at
  position \<open>i\<close> end, and \<open>completion\<close> gives the order in which the approval
  requests end.
\<close>

record env =
  now :: "nat \<Rightarrow> int"
  isTTY :: bool
  rc_path :: string
  config_file :: "error + GitLabConfig option"
  inspect :: "(string \<times> int) list \<Rightarrow> int \<Rightarrow> string \<Rightarrow> string"
  parse_mrs :: "string \<Rightarrow> string + MergeRequest list"
  parse_approvals :: "string \<Rightarrow> string + MRApprovalStatus"
  listing :: outcome
  approval :: "nat \<Rightarrow> outcome"
  completion :: "nat list"

definition console_log :: "world \<Rightarrow> string \<Rightarrow> world" where
  "console_log w s = w\<lparr>stdout := stdout w @ [s]\<rparr>"

definition console_warn :: "world \<Rightarrow> string \<Rightarrow> world" where
  "console_warn w s = w\<lparr>stderr := stderr w @ [s]\<rparr>"

definition console_error :: "world \<Rightarrow> string \<Rightarrow> world" where
  "console_error w s = w\<lparr>stderr := stderr w @ [s]\<rparr>"

text \<open>\<open>log\<close> of util.ts, on one argument.\<close>

definition log :: "(nat \<Rightarrow> int) \<Rightarrow> world \<Rightarrow> string \<Rightarrow> world" where
  "log clock w msg =
     (let delta = clock (length (stderr w))
      in console_warn w (''['' @ padStart 5 (toString delta) @ ''ms]'' @ '' '' @ msg))"

section \<open>The gateway request: \<open>GitLab.#get\<close> (gitlab.ts, lines 176 to 215)\<close>

text \<open>
  \<open>URLSearchParams.toString\<close> is the form-urlencoded serialisation, on the UTF-8
  bytes of each name and value: letters, digits and \<open>*-._\<close> stay, a space becomes
  \<open>+\<close>, every other byte becomes \<open>%XX\<close>.
\<close>

definition hex2 :: "nat \<Rightarrow> string" where
  "hex2 n = [''0123456789ABCDEF'' ! (n div 16), ''0123456789ABCDEF'' ! (n mod 16)]"

definition form_safe :: "char \<Rightarrow> bool" where
  "form_safe c =
     (let n = (of_char c :: nat)
      in (48 \<le> n \<and> n \<le> 57) \<or> (65 \<le> n \<and> n \<le> 90) \<or> (97 \<le> n \<and> n \<le> 122)
         \<or> c \<in> set ''*-._'')"

definition form_encode :: "string \<Rightarrow> string" where
  "form_encode s =
     concat (map (\<lambda>c. if form_safe c then [c]
                       else if c = CHR '' '' then ''+''
                       else ''%'' @ hex2 (of_char c)) s)"

definition URLSearchParams_toString :: "(string \<times> string) list option \<Rightarrow> string" where
  "URLSearchParams_toString params =
     (case params of
        None \<Rightarrow> []
      | Some ps \<Rightarrow> join ''&'' (map (\<lambda>(k, v). form_encode k @ ''='' @ form_encode v) ps))"

definition GITLAB_API_BASE :: string where
  "GITLAB_API_BASE = ''https://gitlab.com/api/v4''"

text \<open>
  The synchronous part of \<open>#get\<close>, up to the call of \<open>https.get\<close>: it builds the
  URL, writes the first diagnostic line and issues the request. Both callers pass a
  path made of letters, digits, \<open>_\<close>, \<open>-\<close> and \<open>/\<close>, which the URL parser leaves as it
  is, so \<open>url.toString()\<close> is the base, the path and, when the query is not empty,
  \<open>?\<close> and the query. The result carries \<open>logUrl\<close> to the second part.
\<close>

definition get_start ::
  "(nat \<Rightarrow> int) \<Rightarrow> GitLab \<Rightarrow> string \<Rightarrow> (string \<times> string) list option \<Rightarrow> world
     \<Rightarrow> world \<times> string" where
  "get_start clock g uri params w =
     (let baseURL = GITLAB_API_BASE @ ''/projects/'' @ toString (project_id g);
          search = URLSearchParams_toString params;
          href = baseURL @ uri @ (if search = [] then [] else ''?'' @ search);
          logUrl = drop (length baseURL) href;
          w1 = log clock w (logUrl @ '' - requesting...'');
          options = [(''authorization'', ''Bearer '' @ api_token g)]
      in (w1\<lparr>requests := requests w1 @ [\<lparr>url = href, headers = options\<rparr>]\<rparr>, logUrl))"

text \<open>
  The \<open>end\<close> handler of the response: \<open>JSON.parse\<close> in a \<open>try\<close> whose \<open>catch\<close>
  rejects, then the second diagnostic line, then \<open>resolve\<close> (without effect on a
  promise that is already rejected).
\<close>

definition read_body ::
  "(string \<Rightarrow> string + 'a) \<Rightarrow> (nat \<Rightarrow> int) \<Rightarrow> string \<Rightarrow> string \<Rightarrow> world
     \<Rightarrow> world \<times> (error + 'a)" where
  "read_body JSON_parse clock logUrl data w =
     (let result = JSON_parse data;
          w1 = log clock w (logUrl @ '' - received '' @ toString (int (length data)) @ '' bytes.'')
      in (w1, case result of Inl e \<Rightarrow> Inl (DecodeError e) | Inr v \<Rightarrow> Inr v))"

text \<open>
  The asynchronous part of \<open>#get\<close>: how the promise settles for an outcome of the
  request. The guard is \<^verbatim>\<open>statusCode && (statusCode < 200 || statusCode >= 300)\<close>;
  a number is truthy when it is not \<open>0\<close>.
\<close>

definition get_end ::
  "(string \<Rightarrow> string + 'a) \<Rightarrow> (nat \<Rightarrow> int) \<Rightarrow> string \<Rightarrow> outcome \<Rightarrow> world
     \<Rightarrow> world \<times> (error + 'a)" where
  "get_end JSON_parse clock logUrl out w =
     (case out of
        NetError e \<Rightarrow> (w, Inl (TransportError e))
      | Response None data \<Rightarrow> read_body JSON_parse clock logUrl data w
      | Response (Some statusCode) data \<Rightarrow>
          if statusCode \<noteq> 0 \<and> (statusCode < 200 \<or> statusCode \<ge> 300)
          then (w, Inl (StatusError statusCode))
          else read_body JSON_parse clock logUrl data w)"

text \<open>
  How the promise settles for an outcome, read off \<open>get_end\<close> at a fixed clock, URL
  and world (it depends on none of them, see \<open>snd_get_end\<close> below).
\<close>

definition settles_as :: "(string \<Rightarrow> string + 'a) \<Rightarrow> outcome \<Rightarrow> error + 'a" where
  "settles_as JSON_parse out =
     snd (get_end JSON_parse (\<lambda>k. 0) [] out \<lparr>stdout = [], stderr = [], requests = []\<rparr>)"

definition get ::
  "(string \<Rightarrow> string + 'a) \<Rightarrow> (nat \<Rightarrow> int) \<Rightarrow> GitLab \<Rightarrow> string
     \<Rightarrow> (string \<times> string) list option \<Rightarrow> outcome \<Rightarrow> world \<Rightarrow> world \<times> (error + 'a)" where
  "get JSON_parse clock g uri params out w =
     (let (w1, logUrl) = get_start clock g uri params w
      in get_end JSON_parse clock logUrl out w1)"

section \<open>The orchestrator: \<open>GitLab.openMergeRequests\<close> (gitlab.ts, lines 112 to 141)\<close>

text \<open>The author filter, lines 119 to 125.\<close>

definition select_authors :: "int list \<Rightarrow> MergeRequest list \<Rightarrow> MergeRequest list" where
  "select_authors author_ids all_mrs =
     (if length author_ids > 0
      then filter (\<lambda>mr. arr_includes author_ids (author_id (author mr))) all_mrs
      else all_mrs)"

text \<open>The callback of \<open>then\<close>, lines 132 to 135: two assignments to the same object.\<close>

definition enrich :: "MRApprovalStatus \<Rightarrow> MergeRequest \<Rightarrow> MergeRequest" where
  "enrich approvals mr =
     (let mr1 = mr\<lparr>approvals_needed := approvals_left approvals\<rparr>
      in mr1\<lparr>blockers := findBlockers mr1\<rparr>)"

text \<open>
  \<open>mrs.map\<close> runs the synchronous part of every approval request, in the order of the
  items, before any of them ends.
\<close>

fun start_all :: "(nat \<Rightarrow> int) \<Rightarrow> GitLab \<Rightarrow> MergeRequest list \<Rightarrow> world \<Rightarrow> world \<times> string list" where
  "start_all clock g [] w = (w, [])"
| "start_all clock g (mr # mrs) w =
     (let (w1, u) = get_start clock g (''/merge_requests/'' @ toString (iid mr) @ ''/approvals'') None w;
          (w2, us) = start_all clock g mrs w1
      in (w2, u # us))"

text \<open>
  The order in which the \<open>n\<close> approval requests end: the positions named by the
  environment, each once, then the positions it does not name. Every list of
  positions gives a permutation of \<open>[0..<n]\<close>, and every permutation gives itself.
\<close>

definition completion_order :: "nat \<Rightarrow> nat list \<Rightarrow> nat list" where
  "completion_order n ord =
     (let named = remdups (filter (\<lambda>i. i < n) ord)
      in named @ filter (\<lambda>i. i \<notin> set named) [0..<n])"

text \<open>
  The state of \<open>openMergeRequests\<close> when its promise settles: the world, the value or
  the error, and the approval requests that have not ended yet (position and
  \<open>logUrl\<close>).
\<close>

record run =
  world_of :: world
  result :: "error + MergeRequest list"
  in_flight :: "(nat \<times> string) list"

text \<open>
  \<open>Promise.all\<close> over the approval requests, which end one at a time in the given
  order. A request that succeeds updates the item at its own position of the array;
  the first one that fails rejects the whole promise; when none is left the promise
  resolves and the array is returned.
\<close>

fun settle :: "env \<Rightarrow> (nat \<times> string) list \<Rightarrow> MergeRequest list \<Rightarrow> world \<Rightarrow> run" where
  "settle e [] mrs w = \<lparr>world_of = w, result = Inr mrs, in_flight = []\<rparr>"
| "settle e ((i, logUrl) # tasks) mrs w =
     (case get_end (parse_approvals e) (now e) logUrl (approval e i) w of
        (w1, Inl err) \<Rightarrow> \<lparr>world_of = w1, result = Inl err, in_flight = tasks\<rparr>
      | (w1, Inr approvals) \<Rightarrow> settle e tasks (mrs[i := enrich approvals (mrs ! i)]) w1)"

definition openMergeRequests :: "env \<Rightarrow> GitLab \<Rightarrow> world \<Rightarrow> run" where
  "openMergeRequests e g w =
     (case get (parse_mrs e) (now e) g ''/merge_requests''
             (Some [(''scope'', ''all''), (''state'', ''opened''),
                    (''target_branch'', target_branch g)])
             (listing e) w of
        (w1, Inl err) \<Rightarrow> \<lparr>world_of = w1, result = Inl err, in_flight = []\<rparr>
      | (w1, Inr all_mrs) \<Rightarrow>
          (let author_ids = map snd (authors g);
               mrs = select_authors author_ids all_mrs;
               (w2, logUrls) = start_all (now e) g mrs w1;
               ord = completion_order (length mrs) (completion e)
           in settle e (map (\<lambda>i. (i, logUrls ! i)) ord) mrs w2))"

text \<open>
  The approval requests still in flight when the run has failed end later; what
  remains visible of them is their diagnostic line.
\<close>

fun drain :: "env \<Rightarrow> (nat \<times> string) list \<Rightarrow> world \<Rightarrow> world" where
  "drain e [] w = w"
| "drain e ((i, logUrl) # tasks) w =
     drain e tasks (fst (get_end (parse_approvals e) (now e) logUrl (approval e i) w))"

section \<open>Grouping and formatting (util.ts) and the program (index.ts)\<close>

abbreviation NL :: string where
  "NL \<equiv> [CHR 0x0A]"

definition format_item :: "MergeRequest \<Rightarrow> string list" where
  "format_item mr =
     (let o1 = [''    * ['' @ title mr @ '']('' @ web_url mr @ '') ('' @ username (author mr) @ '')'' @ NL];
          o2 = (if length (labels mr) > 0
                then o1 @ [''        * Labels: '' @ join '', '' (labels mr) @ NL] else o1);
          o3 = (if length (blockers mr) > 0
                then o2 @ [''        * '' @ join '', '' (blockers mr) @ NL] else o2)
      in o3)"

definition formatMRs :: "string \<Rightarrow> MergeRequest list \<Rightarrow> string" where
  "formatMRs header mrs =
     join [] (foldl (\<lambda>output mr. output @ format_item mr) [''* *'' @ header @ ''*'' @ NL] mrs)"

definition groupBy :: "('a \<Rightarrow> 'k) \<Rightarrow> 'a list \<Rightarrow> ('k, 'a list) js_map" where
  "groupBy f xs =
     foldl (\<lambda>m x. let key = f x
                   in if map_has m key then map_push m key x else map_set m key [x]) [] xs"

text \<open>The array a map of groups holds for a key, empty when the key is absent.\<close>

definition bucket :: "('k, 'a list) js_map \<Rightarrow> 'k \<Rightarrow> 'a list" where
  "bucket m k = (case map_get m k of None \<Rightarrow> [] | Some v \<Rightarrow> v)"

text \<open>The key function of index.ts, line 22.\<close>

definition bucket_key :: "MergeRequest \<Rightarrow> string" where
  "bucket_key mr = (if length (blockers mr) > 0 then ''blocked'' else ''ready'')"

text \<open>
  \<^verbatim>\<open>mrs.has(k) && formatMRs(h, mrs.get(k)!)\<close>: \<open>None\<close> stands for \<open>false\<close>; the key is
  present whenever \<open>has\<close> holds.
\<close>

definition section_of :: "(string, MergeRequest list) js_map \<Rightarrow> string \<Rightarrow> string \<Rightarrow> string option" where
  "section_of mrs k header =
     (if map_has mrs k
      then (case map_get mrs k of Some v \<Rightarrow> Some (formatMRs header v) | None \<Rightarrow> None)
      else None)"

text \<open>\<^verbatim>\<open>.filter(Boolean)\<close>: drops \<open>false\<close> and the empty string.\<close>

fun filter_Boolean :: "string option list \<Rightarrow> string list" where
  "filter_Boolean [] = []"
| "filter_Boolean (None # xs) = filter_Boolean xs"
| "filter_Boolean (Some s # xs) = (if s = [] then filter_Boolean xs else s # filter_Boolean xs)"

definition report :: "GitLab \<Rightarrow> MergeRequest list \<Rightarrow> string" where
  "report gitlab enriched =
     (let mrs = groupBy bucket_key enriched
      in join [] (filter_Boolean
           [Some (NL @ ''*Open MRs against `'' @ target_branch gitlab @ ''`:*'' @ NL),
            section_of mrs ''ready'' ''Ready to Merge'',
            section_of mrs ''blocked'' ''Blocked'']))"

text \<open>
  \<open>main\<close> with its \<open>catch\<close> (index.ts, line 49): any rejection ends the run with the
  message of the error on standard error.
\<close>

definition main :: "env \<Rightarrow> world" where
  "main e =
     (let w0 = log (now e) \<lparr>stdout = [], stderr = [], requests = []\<rparr>
                 (''Checking for configuration file '' @ rc_path e)
      in case config_file e of
           Inl err \<Rightarrow> console_error w0 (message err)
         | Inr config \<Rightarrow>
             (case constructor config of
                Inl err \<Rightarrow> console_error w0 (message err)
              | Inr (warnings, gitlab) \<Rightarrow>
                  (let w1 = foldl console_warn w0 warnings;
                       w2 = log (now e) w1
                              (inspect e (authors gitlab) (project_id gitlab) (target_branch gitlab));
                       r = openMergeRequests e gitlab w2
                   in case result r of
                        Inl err \<Rightarrow> drain e (in_flight r) (console_error (world_of r) (message err))
                      | Inr enriched \<Rightarrow>
                          (let output = report gitlab enriched;
                               w3 = console_warn (world_of r)
                                      (NL @ ''Output can safely be piped to clipboard.'' @ NL);
                               w4 = console_warn w3 (''E.g., for macOS: mrstat | pbcopy'' @ NL);
                               w5 = (if isTTY e then console_warn w4 ''===== BEGIN MARKDOWN ====='' else w4);
                               w6 = console_log w5 output;
                               w7 = (if isTTY e
                                     then console_warn w6 (''===== END MARKDOWN ====='' @ NL) else w6)
                           in w7))))"

text \<open>
  Two worlds show the same output when they agree on standard output, on standard
  error and on the URLs requested, in order; the headers of the requests may differ.
\<close>

definition same_output :: "world \<Rightarrow> world \<Rightarrow> bool" where
  "same_output w w' =
     (stdout w = stdout w' \<and> stderr w = stderr w' \<and> map url (requests w) = map url (requests w'))"

section \<open>Sample data\<close>

definition alice :: Author where
  "alice = \<lparr>author_id = 1010, author_name = ''Alice'', username = ''alice''\<rparr>"

definition bob :: Author where
  "bob = \<lparr>author_id = 1011, author_name = ''Bob'', username = ''bob''\<rparr>"

definition mr_clean :: MergeRequest where
  "mr_clean =
     \<lparr>approvals_needed = 0, author = alice, blockers = [],
      blocking_discussions_resolved = True, draft = False, has_conflicts = False, iid = 27,
      labels = [], merge_status = Can_be_merged, source_branch = ''feat/mobile'',
      state = Open, title = ''feat: mobile'', web_url = ''https://gitlab.com/p/-/merge_requests/27'',
      work_in_progress = False\<rparr>"

definition mr_conflict :: MergeRequest where
  "mr_conflict =
     \<lparr>approvals_needed = 0, author = bob, blockers = [],
      blocking_discussions_resolved = True, draft = False, has_conflicts = True, iid = 28,
      labels = [''ui''], merge_status = Cannot_be_merged, source_branch = ''feat/anim'',
      state = Open, title = ''feat: animations'', web_url = ''https://gitlab.com/p/-/merge_requests/28'',
      work_in_progress = False\<rparr>"

definition approvals :: "int \<Rightarrow> MRApprovalStatus" where
  "approvals n =
     \<lparr>approvals_required = 2, approvals_left = n, as_id = 1, as_iid = 1,
      as_project_id = 12345678, as_title = ''t''\<rparr>"

definition demo_config :: GitLabConfig where
  "demo_config =
     \<lparr>cfg_api_token = Some ''SECRET'', cfg_target_branch = Some ''main'',
      cfg_authors = Some [(''alice'', 1010), (''bob'', 1011)], cfg_project_id = Some 12345678\<rparr>"

definition demo_gitlab :: GitLab where
  "demo_gitlab =
     \<lparr>api_token = ''SECRET'', authors = [(''alice'', 1010), (''bob'', 1011)],
      project_id = 12345678, target_branch = ''main''\<rparr>"

definition demo_world :: world where
  "demo_world = \<lparr>stdout = [], stderr = [], requests = []\<rparr>"

text \<open>
  An environment in which the listing returns the two sample items and both
  approval requests succeed, the second one first; and one in which the approval
  request of the first item is answered with status 500.
\<close>

definition demo_env :: env where
  "demo_env =
     \<lparr>now = (\<lambda>k. int k), isTTY = False, rc_path = ''/home/edgar/.mrstat.json'',
      config_file = Inr (Some demo_config),
      inspect = (\<lambda>a p b. ''GitLab''),
      parse_mrs = (\<lambda>s. if s = ''[mrs]'' then Inr [mr_conflict, mr_clean] else Inl ''Unexpected token''),
      parse_approvals =
        (\<lambda>s. if s = ''{left:1}'' then Inr (approvals 1)
             else if s = ''{left:0}'' then Inr (approvals 0)
             else Inl ''Unexpected token''),
      listing = Response (Some 200) ''[mrs]'',
      approval = (\<lambda>i. if i = 0 then Response (Some 200) ''{left:1}''
                       else Response (Some 200) ''{left:0}''),
      completion = [1, 0]\<rparr>"

definition demo_env_fail :: env where
  "demo_env_fail =
     demo_env\<lparr>approval := (\<lambda>i. if i = 0 then Response (Some 500) ''<html>''
                                else Response (Some 200) ''{left:0}'')\<rparr>"

section \<open>The blocker deriver\<close>

lemma str_includes_cannot:
  "str_includes (merge_status_str s) ''cannot_be_merged'' \<longleftrightarrow>
     s = Cannot_be_merged \<or> s = Cannot_be_merged_recheck"
  by (cases s) simp_all

lemma toString_2: "toString 2 = ''2''"
  by (simp add: toString_def digits.simps [of 2])

text \<open>
  Claim C1. \<open>findBlockers\<close> is a total function that checks four independent
  conditions in a fixed order, each adding at most one string: unresolved threads,
  conflicts, a merge status of \<open>cannot_be_merged\<close> or \<open>cannot_be_merged_recheck\<close>
  (exactly the statuses whose string contains \<open>cannot_be_merged\<close>), and a positive
  number of approvals still needed, printed in the string. With all four conditions
  true and two approvals needed the result is the four strings in that order; with
  all four false it is empty.
\<close>

theorem findBlockers_four_conditions:
  "findBlockers mr =
     (if \<not> blocking_discussions_resolved mr then [''unresolved threads''] else []) @
     (if has_conflicts mr then [''has conflicts''] else []) @
     (if merge_status mr = Cannot_be_merged \<or> merge_status mr = Cannot_be_merged_recheck
      then [''cannot be merged''] else []) @
     (if approvals_needed mr > 0
      then [''requires approval ('' @ toString (approvals_needed mr) @ '')''] else [])
   \<and> (str_includes (merge_status_str (merge_status mr)) ''cannot_be_merged'' \<longleftrightarrow>
        merge_status mr = Cannot_be_merged \<or> merge_status mr = Cannot_be_merged_recheck)
   \<and> length (findBlockers mr) \<le> 4
   \<and> (\<not> blocking_discussions_resolved mr \<and> has_conflicts mr
        \<and> (merge_status mr = Cannot_be_merged \<or> merge_status mr = Cannot_be_merged_recheck)
        \<and> approvals_needed mr = 2
      \<longrightarrow> findBlockers mr =
            [''unresolved threads'', ''has conflicts'', ''cannot be merged'', ''requires approval (2)''])
   \<and> (blocking_discussions_resolved mr \<and> \<not> has_conflicts mr
        \<and> merge_status mr \<noteq> Cannot_be_merged \<and> merge_status mr \<noteq> Cannot_be_merged_recheck
        \<and> approvals_needed mr \<le> 0
      \<longrightarrow> findBlockers mr = [])"
proof -
  have eq: "findBlockers mr =
     (if \<not> blocking_discussions_resolved mr then [''unresolved threads''] else []) @
     (if has_conflicts mr then [''has conflicts''] else []) @
     (if merge_status mr = Cannot_be_merged \<or> merge_status mr = Cannot_be_merged_recheck
      then [''cannot be merged''] else []) @
     (if approvals_needed mr > 0
      then [''requires approval ('' @ toString (approvals_needed mr) @ '')''] else [])"
    unfolding findBlockers_def Let_def str_includes_cannot by simp
  have len: "length (findBlockers mr) \<le> 4"
    unfolding eq by simp
  show ?thesis
    using eq len str_includes_cannot [of "merge_status mr"] toString_2 by auto
qed

theorem findBlockers_four_conditions_witness:
  "findBlockers (mr_conflict\<lparr>blocking_discussions_resolved := False, approvals_needed := 2\<rparr>) =
     [''unresolved threads'', ''has conflicts'', ''cannot be merged'', ''requires approval (2)'']
   \<and> findBlockers mr_clean = []"
  using findBlockers_four_conditions
          [of "mr_conflict\<lparr>blocking_discussions_resolved := False, approvals_needed := 2\<rparr>"]
        findBlockers_four_conditions [of mr_clean]
  by (simp add: mr_conflict_def mr_clean_def toString_2)

section \<open>The author filter\<close>

lemma arr_includes_set: "arr_includes xs y \<longleftrightarrow> y \<in> set xs"
  by (induction xs) auto

text \<open>
  Claim C2. The author filter is the identity when the table of authors has no
  values; otherwise it returns exactly the items whose author id is a value of the
  table, in their order: every item kept has an allowed author, and no item with an
  allowed author is dropped (each keeps its number of occurrences).
\<close>

theorem select_authors_filter:
  "(map snd tbl = [] \<longrightarrow> select_authors (map snd tbl) items = items)
   \<and> (map snd tbl \<noteq> [] \<longrightarrow>
        select_authors (map snd tbl) items =
          filter (\<lambda>mr. author_id (author mr) \<in> snd ` set tbl) items
        \<and> subseq (select_authors (map snd tbl) items) items
        \<and> (\<forall>mr \<in> set (select_authors (map snd tbl) items). author_id (author mr) \<in> snd ` set tbl)
        \<and> (\<forall>mr \<in> set items. author_id (author mr) \<in> snd ` set tbl
              \<longrightarrow> mr \<in> set (select_authors (map snd tbl) items))
        \<and> (\<forall>mr. author_id (author mr) \<in> snd ` set tbl
              \<longrightarrow> count_list (select_authors (map snd tbl) items) mr = count_list items mr))"
proof -
  have count: "P x \<Longrightarrow> count_list (filter P xs) x = count_list xs x" for P and x :: MergeRequest and xs
    by (induction xs) auto
  have "map snd tbl \<noteq> [] \<Longrightarrow>
        select_authors (map snd tbl) items =
          filter (\<lambda>mr. author_id (author mr) \<in> snd ` set tbl) items"
    by (simp add: select_authors_def arr_includes_set)
  then show ?thesis
    by (auto simp: select_authors_def count)
qed

theorem select_authors_filter_witness:
  "map snd [(''alice'', 1010 :: int)] \<noteq> []
   \<and> select_authors (map snd [(''alice'', 1010)]) [mr_conflict, mr_clean, mr_conflict] = [mr_clean]
   \<and> select_authors (map snd []) [mr_conflict, mr_clean] = [mr_conflict, mr_clean]"
  using select_authors_filter [of "[(''alice'', 1010)]" "[mr_conflict, mr_clean, mr_conflict]"]
        select_authors_filter [of "[]" "[mr_conflict, mr_clean]"]
  by (simp add: mr_conflict_def mr_clean_def alice_def bob_def)

section \<open>Grouping\<close>

lemma map_has_get: "map_has m k \<longleftrightarrow> map_get m k \<noteq> None"
  by (induction m) auto

lemma map_get_set: "map_get (map_set m k v) k' = (if k' = k then Some v else map_get m k')"
  by (induction m) auto

lemma map_get_push:
  "map_get (map_push m k x) k' =
     (if k' = k then map_option (\<lambda>v. v @ [x]) (map_get m k) else map_get m k')"
  by (induction m) auto

lemma groupBy_snoc:
  "groupBy f (xs @ [x]) =
     (let m = groupBy f xs; key = f x
      in if map_has m key then map_push m key x else map_set m key [x])"
  by (simp add: groupBy_def Let_def)

lemma map_get_groupBy:
  "map_get (groupBy f xs) k =
     (if filter (\<lambda>x. f x = k) xs = [] then None else Some (filter (\<lambda>x. f x = k) xs))"
proof (induction xs rule: rev_induct)
  case Nil
  show ?case by (simp add: groupBy_def)
next
  case (snoc x xs)
  show ?case
  proof (cases "map_has (groupBy f xs) (f x)")
    case True
    then show ?thesis
      using snoc by (auto simp: groupBy_snoc Let_def map_get_push map_has_get split: if_splits)
  next
    case False
    then show ?thesis
      using snoc by (auto simp: groupBy_snoc Let_def map_get_set map_has_get split: if_splits)
  qed
qed

lemma bucket_groupBy: "bucket (groupBy f xs) k = filter (\<lambda>x. f x = k) xs"
  by (simp add: bucket_def map_get_groupBy)

text \<open>
  Claim C3. Grouping by \<open>bucket_key\<close> is a partition: the \<open>ready\<close> bucket holds
  exactly the items without blockers and the \<open>blocked\<close> bucket exactly those with
  blockers, both in the order of the input; there is no other key; every item is in
  exactly one bucket, and the two buckets together have the size and the members of
  the input.
\<close>

theorem groupBy_partition:
  "bucket (groupBy bucket_key items) ''ready'' = filter (\<lambda>mr. blockers mr = []) items
   \<and> bucket (groupBy bucket_key items) ''blocked'' = filter (\<lambda>mr. blockers mr \<noteq> []) items
   \<and> (\<forall>mr. mr \<in> set (bucket (groupBy bucket_key items) ''ready'')
            \<longleftrightarrow> mr \<in> set items \<and> blockers mr = [])
   \<and> (\<forall>mr. mr \<in> set (bucket (groupBy bucket_key items) ''blocked'')
            \<longleftrightarrow> mr \<in> set items \<and> blockers mr \<noteq> [])
   \<and> (\<forall>k. map_has (groupBy bucket_key items) k \<longrightarrow> k = ''ready'' \<or> k = ''blocked'')
   \<and> mset (bucket (groupBy bucket_key items) ''ready'')
       + mset (bucket (groupBy bucket_key items) ''blocked'') = mset items
   \<and> length (bucket (groupBy bucket_key items) ''ready'')
       + length (bucket (groupBy bucket_key items) ''blocked'') = length items
   \<and> set (bucket (groupBy bucket_key items) ''ready'')
       \<union> set (bucket (groupBy bucket_key items) ''blocked'') = set items
   \<and> set (bucket (groupBy bucket_key items) ''ready'')
       \<inter> set (bucket (groupBy bucket_key items) ''blocked'') = {}
   \<and> subseq (bucket (groupBy bucket_key items) ''ready'') items
   \<and> subseq (bucket (groupBy bucket_key items) ''blocked'') items"
proof -
  have r: "bucket (groupBy bucket_key items) ''ready'' = filter (\<lambda>mr. blockers mr = []) items"
    by (simp add: bucket_groupBy bucket_key_def)
  have b: "bucket (groupBy bucket_key items) ''blocked'' = filter (\<lambda>mr. blockers mr \<noteq> []) items"
    by (simp add: bucket_groupBy bucket_key_def)
  have keys: "map_has (groupBy bucket_key items) k \<Longrightarrow> k = ''ready'' \<or> k = ''blocked''" for k
    by (auto simp: map_has_get map_get_groupBy filter_empty_conv bucket_key_def split: if_splits)
  have len: "length (filter (\<lambda>mr. blockers mr = []) items)
            + length (filter (\<lambda>mr. blockers mr \<noteq> []) items) = length items"
    using sum_length_filter_compl [of "\<lambda>mr. blockers mr = []" items] by simp
  have ms: "mset (filter (\<lambda>mr. blockers mr = []) items)
            + mset (filter (\<lambda>mr. blockers mr \<noteq> []) items) = mset items"
    by (induction items) auto
  show ?thesis
    unfolding r b using keys len ms by auto
qed


theorem groupBy_partition_witness:
  "bucket (groupBy bucket_key [mr_conflict\<lparr>blockers := [''has conflicts'']\<rparr>, mr_clean]) ''ready''
     = [mr_clean]
   \<and> bucket (groupBy bucket_key [mr_conflict\<lparr>blockers := [''has conflicts'']\<rparr>, mr_clean]) ''blocked''
     = [mr_conflict\<lparr>blockers := [''has conflicts'']\<rparr>]"
  using groupBy_partition [of "[mr_conflict\<lparr>blockers := [''has conflicts'']\<rparr>, mr_clean]"]
  by (simp add: mr_conflict_def mr_clean_def)

section \<open>The gateway request\<close>

lemma stderr_log: "stderr (log clock w msg) =
    stderr w @ [''['' @ padStart 5 (toString (clock (length (stderr w)))) @ ''ms] '' @ msg]"
  by (simp add: log_def console_warn_def)

lemma stdout_log: "stdout (log clock w msg) = stdout w"
  by (simp add: log_def console_warn_def)

lemma requests_log: "requests (log clock w msg) = requests w"
  by (simp add: log_def console_warn_def)

lemma settles_as_NetError: "settles_as p (NetError m) = Inl (TransportError m)"
  by (simp add: settles_as_def get_end_def)

lemma settles_as_None:
  "settles_as p (Response None data) =
     (case p data of Inl m \<Rightarrow> Inl (DecodeError m) | Inr v \<Rightarrow> Inr v)"
  by (simp add: settles_as_def get_end_def read_body_def Let_def)

lemma settles_as_Some:
  "settles_as p (Response (Some s) data) =
     (if s \<noteq> 0 \<and> (s < 200 \<or> 300 \<le> s) then Inl (StatusError s)
      else case p data of Inl m \<Rightarrow> Inl (DecodeError m) | Inr v \<Rightarrow> Inr v)"
  by (simp add: settles_as_def get_end_def read_body_def Let_def)

lemma snd_get_end: "snd (get_end p clock u out w) = settles_as p out"
  by (simp add: settles_as_def get_end_def read_body_def Let_def
           split: outcome.splits option.splits)

lemma snd_get: "snd (get p clock g uri params out w) = settles_as p out"
  by (simp add: get_def Let_def snd_get_end split: prod.splits)

lemma get_start_eq:
  "get_start clock g uri params w =
     (let q = URLSearchParams_toString params;
          u = uri @ (if q = [] then [] else ''?'' @ q)
      in ((log clock w (u @ '' - requesting...''))
            \<lparr>requests := requests w @
               [\<lparr>url = GITLAB_API_BASE @ ''/projects/'' @ toString (project_id g) @ u,
                 headers = [(''authorization'', ''Bearer '' @ api_token g)]\<rparr>]\<rparr>, u))"
  by (simp add: get_start_def Let_def requests_log)

lemma stdout_get_start: "stdout (fst (get_start clock g uri params w)) = stdout w"
  by (simp add: get_start_eq Let_def stdout_log)

lemma stdout_get_end: "stdout (fst (get_end p clock u out w)) = stdout w"
  by (simp add: get_end_def read_body_def Let_def stdout_log split: outcome.splits option.splits)

lemma requests_get_end: "requests (fst (get_end p clock u out w)) = requests w"
  by (simp add: get_end_def read_body_def Let_def requests_log split: outcome.splits option.splits)

lemma stderr_get_end: "prefix (stderr w) (stderr (fst (get_end p clock u out w)))"
  by (simp add: get_end_def read_body_def Let_def stderr_log split: outcome.splits option.splits)

lemma stdout_get: "stdout (fst (get p clock g uri params out w)) = stdout w"
  by (simp add: get_def Let_def stdout_get_end stdout_get_start split: prod.splits)
     (metis fst_conv stdout_get_start)

lemma demo_listing:
  "settles_as (parse_mrs demo_env) (listing demo_env) = Inr [mr_conflict, mr_clean]"
  by (simp add: demo_env_def settles_as_Some)

lemma demo_fail_listing:
  "settles_as (parse_mrs demo_env_fail) (listing demo_env_fail) = Inr [mr_conflict, mr_clean]"
  by (simp add: demo_env_fail_def demo_env_def settles_as_Some)

lemma demo_selected:
  "select_authors (map snd (authors demo_gitlab)) [mr_conflict, mr_clean] = [mr_conflict, mr_clean]"
  by (simp add: select_authors_def demo_gitlab_def mr_conflict_def mr_clean_def alice_def bob_def)

lemma demo_constructor: "constructor (Some demo_config) = Inr ([], demo_gitlab)"
  by (simp add: constructor_def demo_config_def demo_gitlab_def opt_field_def falsy_str_def
        falsy_num_def)

lemma demo_fail_approval_0:
  "settles_as (parse_approvals demo_env_fail) (approval demo_env_fail 0) = Inl (StatusError 500)"
  by (simp add: demo_env_fail_def demo_env_def settles_as_Some)

lemma demo_fail_approval_other:
  "k \<noteq> 0 \<Longrightarrow>
   settles_as (parse_approvals demo_env_fail) (approval demo_env_fail k) = Inr (approvals 0)"
  by (simp add: demo_env_fail_def demo_env_def settles_as_Some)

lemma demo_approval:
  "settles_as (parse_approvals demo_env) (approval demo_env i) =
     Inr (if i = 0 then approvals 1 else approvals 0)"
  by (simp add: demo_env_def settles_as_Some)

text \<open>
  Claim C5, as amended. For every request of \<open>#get\<close>: a response whose status code
  is a number other than \<open>0\<close> outside 200 to 299 rejects with the status error; a body
  that is not well-formed JSON gives an error whatever the status is (the decode
  error when the status did not reject); a status in 200 to 299 with a body that
  parses resolves with the parsed value. A status code of \<open>0\<close> passes the guard, so
  the body is read and the parsed value returned.
\<close>

theorem get_status_and_body:
  "(s \<noteq> 0 \<and> (s < 200 \<or> 300 \<le> s)
      \<longrightarrow> snd (get p clock g uri params (Response (Some s) data) w) = Inl (StatusError s))
   \<and> (p data = Inl m
      \<longrightarrow> (\<exists>err. snd (get p clock g uri params (Response sc data) w) = Inl err))
   \<and> (p data = Inl m \<and> \<not> (s \<noteq> 0 \<and> (s < 200 \<or> 300 \<le> s))
      \<longrightarrow> snd (get p clock g uri params (Response (Some s) data) w) = Inl (DecodeError m))
   \<and> (200 \<le> s \<and> s < 300 \<and> p data = Inr v
      \<longrightarrow> snd (get p clock g uri params (Response (Some s) data) w) = Inr v)
   \<and> (p data = Inr v
      \<longrightarrow> snd (get p clock g uri params (Response (Some 0) data) w) = Inr v)"
  by (cases sc) (auto simp: snd_get settles_as_Some settles_as_None)

theorem get_status_and_body_witness:
  "snd (get (parse_mrs demo_env) (now demo_env) demo_gitlab ''/merge_requests'' None
          (Response (Some 500) ''<html>'') demo_world) = Inl (StatusError 500)
   \<and> snd (get (parse_mrs demo_env) (now demo_env) demo_gitlab ''/merge_requests'' None
          (Response (Some 200) ''<html>'') demo_world) = Inl (DecodeError ''Unexpected token'')
   \<and> snd (get (parse_mrs demo_env) (now demo_env) demo_gitlab ''/merge_requests'' None
          (Response (Some 200) ''[mrs]'') demo_world) = Inr [mr_conflict, mr_clean]"
proof -
  have bad: "parse_mrs demo_env ''<html>'' = Inl ''Unexpected token''"
    by (simp add: demo_env_def)
  have good: "parse_mrs demo_env ''[mrs]'' = Inr [mr_conflict, mr_clean]"
    by (simp add: demo_env_def)
  show ?thesis
    using get_status_and_body [of 500 "parse_mrs demo_env" "now demo_env" demo_gitlab
            "''/merge_requests''" None "''<html>''" demo_world "''Unexpected token''" None]
          get_status_and_body [of 200 "parse_mrs demo_env" "now demo_env" demo_gitlab
            "''/merge_requests''" None "''<html>''" demo_world "''Unexpected token''" None]
          get_status_and_body [of 200 "parse_mrs demo_env" "now demo_env" demo_gitlab
            "''/merge_requests''" None "''[mrs]''" demo_world _ None "[mr_conflict, mr_clean]"]
          bad good
    by simp
qed

text \<open>
  Without the exception for \<open>0\<close> the statement fails: a response with status code
  \<open>0\<close>, which is outside 200 to 299, and a body that parses resolves.
\<close>

theorem status_zero_resolves:
  "((0::int) < 200 \<or> 300 \<le> (0::int))
   \<and> snd (get (parse_mrs demo_env) (now demo_env) demo_gitlab ''/merge_requests'' None
          (Response (Some 0) ''[mrs]'') demo_world) = Inr [mr_conflict, mr_clean]"
  by (simp add: snd_get settles_as_Some demo_env_def)

text \<open>
  Claim C10. When \<open>statusCode\<close> is \<open>undefined\<close>, \<open>#get\<close> never rejects on the status:
  it reads the body and settles as \<open>JSON.parse\<close> does, resolving with the parsed
  value when the body parses. A rejection on the status happens only for a response
  that carries a status code.
\<close>

theorem status_undefined_reads_body:
  "snd (get p clock g uri params (Response None data) w) =
     (case p data of Inl m \<Rightarrow> Inl (DecodeError m) | Inr v \<Rightarrow> Inr v)
   \<and> snd (get p clock g uri params (Response None data) w) \<noteq> Inl (StatusError s)
   \<and> (p data = Inr v \<longrightarrow> snd (get p clock g uri params (Response None data) w) = Inr v)
   \<and> (snd (get p clock g uri params (Response sc data) w) = Inl (StatusError s) \<longrightarrow> sc = Some s)"
  by (cases sc) (auto simp: snd_get settles_as_Some settles_as_None split: sum.splits if_splits)

theorem status_undefined_reads_body_witness:
  "snd (get (parse_mrs demo_env) (now demo_env) demo_gitlab ''/merge_requests'' None
          (Response None ''[mrs]'') demo_world) = Inr [mr_conflict, mr_clean]"
proof -
  have good: "parse_mrs demo_env ''[mrs]'' = Inr [mr_conflict, mr_clean]"
    by (simp add: demo_env_def)
  show ?thesis
    using status_undefined_reads_body [of "parse_mrs demo_env" "now demo_env" demo_gitlab
            "''/merge_requests''" None "''[mrs]''" demo_world _ "[mr_conflict, mr_clean]"]
          good
    by simp
qed

section \<open>Construction of the gateway\<close>

text \<open>
  Claim C9. The required fields are tested for truthiness: with \<open>api_token\<close> present
  and equal to the empty string the constructor throws the error it throws when the
  field is absent, and (the token being accepted) so it does for \<open>project_id\<close>
  present and equal to \<open>0\<close>.
\<close>

theorem constructor_truthiness:
  "constructor (Some (c\<lparr>cfg_api_token := Some []\<rparr>)) = Inl (ConfigError missing_api_token)
   \<and> constructor (Some (c\<lparr>cfg_api_token := None\<rparr>)) = Inl (ConfigError missing_api_token)
   \<and> (\<not> falsy_str (cfg_api_token c) \<longrightarrow>
        constructor (Some (c\<lparr>cfg_project_id := Some 0\<rparr>)) = Inl (ConfigError missing_project_id)
        \<and> constructor (Some (c\<lparr>cfg_project_id := None\<rparr>)) = Inl (ConfigError missing_project_id))"
  by (simp add: constructor_def opt_field_def falsy_str_def falsy_num_def)

theorem constructor_truthiness_witness:
  "constructor (Some (demo_config\<lparr>cfg_api_token := Some []\<rparr>)) = Inl (ConfigError missing_api_token)
   \<and> constructor (Some (demo_config\<lparr>cfg_project_id := Some 0\<rparr>)) = Inl (ConfigError missing_project_id)
   \<and> constructor (Some (demo_config\<lparr>cfg_project_id := None\<rparr>)) = Inl (ConfigError missing_project_id)"
proof -
  have "\<not> falsy_str (cfg_api_token demo_config)"
    by (simp add: falsy_str_def demo_config_def)
  then show ?thesis
    using constructor_truthiness [of demo_config] by simp
qed

section \<open>The orchestrator and the run\<close>

lemma stdout_start_all: "stdout (fst (start_all clock g mrs w)) = stdout w"
proof (induction mrs arbitrary: w)
  case Nil
  show ?case by simp
next
  case (Cons mr mrs)
  have "stdout (fst (start_all clock g mrs (fst (get_start clock g
          (''/merge_requests/'' @ toString (iid mr) @ ''/approvals'') None w)))) = stdout w"
    by (simp add: Cons.IH stdout_get_start)
  then show ?case
    by (simp add: Let_def split: prod.splits) (metis fst_conv)
qed

lemma stdout_settle: "stdout (world_of (settle e tasks mrs w)) = stdout w"
proof (induction tasks arbitrary: mrs w)
  case Nil
  show ?case by simp
next
  case (Cons t tasks)
  obtain i u where t: "t = (i, u)" by (cases t)
  obtain w1 r where ge: "get_end (parse_approvals e) (now e) u (approval e i) w = (w1, r)"
    by (cases "get_end (parse_approvals e) (now e) u (approval e i) w")
  have w1: "stdout w1 = stdout w"
    using stdout_get_end [of "parse_approvals e" "now e" u "approval e i" w] ge by simp
  show ?case
    by (cases r) (simp_all add: t ge w1 Cons.IH)
qed

lemma stdout_drain: "stdout (drain e tasks w) = stdout w"
proof (induction tasks arbitrary: w)
  case Nil
  show ?case by simp
next
  case (Cons t tasks)
  obtain i u where t: "t = (i, u)" by (cases t)
  show ?case by (simp add: t Cons.IH stdout_get_end)
qed

lemma stderr_drain: "prefix (stderr w) (stderr (drain e tasks w))"
proof (induction tasks arbitrary: w)
  case Nil
  show ?case by simp
next
  case (Cons t tasks)
  obtain i u where t: "t = (i, u)" by (cases t)
  have "prefix (stderr w) (stderr (fst (get_end (parse_approvals e) (now e) u (approval e i) w)))"
    by (rule stderr_get_end)
  also have "prefix \<dots> (stderr (drain e tasks (fst (get_end (parse_approvals e) (now e) u (approval e i) w))))"
    by (rule Cons.IH)
  finally show ?case by (simp add: t)
qed

lemma stdout_openMergeRequests: "stdout (world_of (openMergeRequests e g w)) = stdout w"
proof -
  let ?G = "get (parse_mrs e) (now e) g ''/merge_requests''
             (Some [(''scope'', ''all''), (''state'', ''opened''),
                    (''target_branch'', target_branch g)]) (listing e) w"
  obtain w1 r where G: "?G = (w1, r)" by (cases ?G)
  have "stdout (fst ?G) = stdout w"
    by (rule stdout_get)
  then have w1: "stdout w1 = stdout w"
    by (simp add: G)
  show ?thesis
  proof (cases r)
    case (Inl err)
    then show ?thesis by (simp add: openMergeRequests_def G w1)
  next
    case (Inr all_mrs)
    let ?mrs = "select_authors (map snd (authors g)) all_mrs"
    obtain w2 us where S: "start_all (now e) g ?mrs w1 = (w2, us)"
      by (cases "start_all (now e) g ?mrs w1")
    have w2: "stdout w2 = stdout w1"
      using stdout_start_all [of "now e" g ?mrs w1] S by simp
    show ?thesis
      by (simp add: openMergeRequests_def G Inr Let_def S stdout_settle w2 w1)
  qed
qed

lemma completion_order_distinct: "distinct (completion_order n ord)"
  by (auto simp: completion_order_def Let_def)

lemma completion_order_set: "set (completion_order n ord) = {0..<n}"
  by (auto simp: completion_order_def Let_def)

lemma completion_order_perm:
  assumes "distinct ord" and "set ord = {0..<n}"
  shows "completion_order n ord = ord"
proof -
  have "filter (\<lambda>i. i < n) ord = ord"
    using assms(2) by (auto simp: filter_id_conv)
  moreover have "filter (\<lambda>i. i \<notin> set ord) [0..<n] = []"
    using assms(2) by (auto simp: filter_empty_conv)
  ultimately show ?thesis
    using assms(1) by (simp add: completion_order_def Let_def distinct_remdups_id)
qed

lemma settle_failure:
  assumes "\<forall>t \<in> set pre. \<exists>a. settles_as (parse_approvals e) (approval e (fst t)) = Inr a"
    and "settles_as (parse_approvals e) (approval e j) = Inl err"
  shows "result (settle e (pre @ (j, u) # post) mrs w) = Inl err
         \<and> in_flight (settle e (pre @ (j, u) # post) mrs w) = post"
  using assms(1)
proof (induction pre arbitrary: mrs w)
  case Nil
  obtain w1 r where ge: "get_end (parse_approvals e) (now e) u (approval e j) w = (w1, r)"
    by (cases "get_end (parse_approvals e) (now e) u (approval e j) w")
  have "r = Inl err"
    using snd_get_end [of "parse_approvals e" "now e" u "approval e j" w] ge assms(2) by simp
  then show ?case by (simp add: ge)
next
  case (Cons t pre)
  obtain i v where t: "t = (i, v)" by (cases t)
  obtain a where a: "settles_as (parse_approvals e) (approval e i) = Inr a"
    using Cons.prems t by auto
  obtain w1 r where ge: "get_end (parse_approvals e) (now e) v (approval e i) w = (w1, r)"
    by (cases "get_end (parse_approvals e) (now e) v (approval e i) w")
  have r: "r = Inr a"
    using snd_get_end [of "parse_approvals e" "now e" v "approval e i" w] ge a by simp
  show ?case
    using Cons.IH [of "mrs[i := enrich a (mrs ! i)]" w1] Cons.prems
    by (simp add: t ge r)
qed

lemma settle_success:
  assumes "\<forall>t \<in> set tasks. settles_as (parse_approvals e) (approval e (fst t)) = Inr (a (fst t))"
  shows "result (settle e tasks mrs w) =
           Inr (foldl (\<lambda>ms i. ms[i := enrich (a i) (ms ! i)]) mrs (map fst tasks))"
  using assms
proof (induction tasks arbitrary: mrs w)
  case Nil
  show ?case by simp
next
  case (Cons t tasks)
  obtain i v where t: "t = (i, v)" by (cases t)
  obtain w1 r where ge: "get_end (parse_approvals e) (now e) v (approval e i) w = (w1, r)"
    by (cases "get_end (parse_approvals e) (now e) v (approval e i) w")
  have r: "r = Inr (a i)"
    using snd_get_end [of "parse_approvals e" "now e" v "approval e i" w] ge Cons.prems t by simp
  show ?case
    using Cons.IH [of "mrs[i := enrich (a i) (mrs ! i)]" w1] Cons.prems
    by (simp add: t ge r)
qed

lemma foldl_update_length:
  "length (foldl (\<lambda>ms i. ms[i := f i (ms ! i)]) ms js) = length ms"
  by (induction js arbitrary: ms) simp_all

lemma foldl_update_nth:
  assumes "distinct js" and "k < length ms"
  shows "foldl (\<lambda>ms i. ms[i := f i (ms ! i)]) ms js ! k =
           (if k \<in> set js then f k (ms ! k) else ms ! k)"
  using assms
proof (induction js arbitrary: ms)
  case Nil
  show ?case by simp
next
  case (Cons j js)
  have "foldl (\<lambda>ms i. ms[i := f i (ms ! i)]) (ms[j := f j (ms ! j)]) js ! k =
          (if k \<in> set js then f k (ms[j := f j (ms ! j)] ! k) else ms[j := f j (ms ! j)] ! k)"
    using Cons.IH [of "ms[j := f j (ms ! j)]"] Cons.prems by simp
  moreover have "k \<in> set js \<Longrightarrow> k \<noteq> j"
    using Cons.prems by auto
  ultimately show ?case
    using Cons.prems by (auto simp: nth_list_update)
qed

lemma foldl_update_all:
  assumes "distinct js" and "set js = {0..<length ms}"
  shows "foldl (\<lambda>ms i. ms[i := f i (ms ! i)]) ms js = map (\<lambda>k. f k (ms ! k)) [0..<length ms]"
proof (rule nth_equalityI)
  show "length (foldl (\<lambda>ms i. ms[i := f i (ms ! i)]) ms js) =
        length (map (\<lambda>k. f k (ms ! k)) [0..<length ms])"
    by (simp add: foldl_update_length)
next
  fix k assume "k < length (foldl (\<lambda>ms i. ms[i := f i (ms ! i)]) ms js)"
  then have k: "k < length ms" by (simp add: foldl_update_length)
  then show "foldl (\<lambda>ms i. ms[i := f i (ms ! i)]) ms js ! k =
             map (\<lambda>k. f k (ms ! k)) [0..<length ms] ! k"
    using foldl_update_nth [OF assms(1) k, of f] assms(2) by simp
qed

lemma openMergeRequests_Inl:
  assumes "settles_as (parse_mrs e) (listing e) = Inl err"
  shows "result (openMergeRequests e g w) = Inl err \<and> in_flight (openMergeRequests e g w) = []"
proof -
  let ?G = "get (parse_mrs e) (now e) g ''/merge_requests''
             (Some [(''scope'', ''all''), (''state'', ''opened''),
                    (''target_branch'', target_branch g)]) (listing e) w"
  obtain w1 r where G: "?G = (w1, r)" by (cases ?G)
  have "snd ?G = settles_as (parse_mrs e) (listing e)" by (rule snd_get)
  then have "r = Inl err" using G assms by simp
  then show ?thesis by (simp add: openMergeRequests_def G)
qed

lemma openMergeRequests_Inr:
  assumes "settles_as (parse_mrs e) (listing e) = Inr all_mrs"
  shows "\<exists>w2 us. openMergeRequests e g w =
           settle e (map (\<lambda>i. (i, us ! i))
                       (completion_order (length (select_authors (map snd (authors g)) all_mrs))
                          (completion e)))
             (select_authors (map snd (authors g)) all_mrs) w2"
proof -
  let ?G = "get (parse_mrs e) (now e) g ''/merge_requests''
             (Some [(''scope'', ''all''), (''state'', ''opened''),
                    (''target_branch'', target_branch g)]) (listing e) w"
  obtain w1 r where G: "?G = (w1, r)" by (cases ?G)
  have "snd ?G = settles_as (parse_mrs e) (listing e)" by (rule snd_get)
  then have r: "r = Inr all_mrs" using G assms by simp
  let ?mrs = "select_authors (map snd (authors g)) all_mrs"
  obtain w2 us where S: "start_all (now e) g ?mrs w1 = (w2, us)"
    by (cases "start_all (now e) g ?mrs w1")
  show ?thesis
    by (simp add: openMergeRequests_def G r Let_def S) blast
qed

lemma openMergeRequests_success:
  assumes "settles_as (parse_mrs e) (listing e) = Inr all_mrs"
    and "\<forall>i < length (select_authors (map snd (authors g)) all_mrs).
           settles_as (parse_approvals e) (approval e i) = Inr (a i)"
  shows "result (openMergeRequests e g w) =
           Inr (map (\<lambda>i. enrich (a i) (select_authors (map snd (authors g)) all_mrs ! i))
                  [0..<length (select_authors (map snd (authors g)) all_mrs)])"
proof -
  let ?mrs = "select_authors (map snd (authors g)) all_mrs"
  let ?ord = "completion_order (length ?mrs) (completion e)"
  obtain w2 us where O: "openMergeRequests e g w = settle e (map (\<lambda>i. (i, us ! i)) ?ord) ?mrs w2"
    using openMergeRequests_Inr [OF assms(1)] by blast
  have ok: "\<forall>t \<in> set (map (\<lambda>i. (i, us ! i)) ?ord).
              settles_as (parse_approvals e) (approval e (fst t)) = Inr (a (fst t))"
    using assms(2) by (auto simp: completion_order_set)
  have "result (openMergeRequests e g w) =
          Inr (foldl (\<lambda>ms i. ms[i := enrich (a i) (ms ! i)]) ?mrs ?ord)"
    using settle_success [OF ok, of ?mrs w2] by (simp add: O comp_def)
  then show ?thesis
    using foldl_update_all [of ?ord ?mrs "\<lambda>i. enrich (a i)"]
    by (simp add: completion_order_distinct completion_order_set)
qed

lemma openMergeRequests_failure:
  assumes "settles_as (parse_mrs e) (listing e) = Inr all_mrs"
    and "i < length (select_authors (map snd (authors g)) all_mrs)"
    and "settles_as (parse_approvals e) (approval e i) = Inl err"
  shows "\<exists>pre j post err'.
           completion_order (length (select_authors (map snd (authors g)) all_mrs)) (completion e)
             = pre @ j # post
           \<and> (\<forall>k \<in> set pre. \<exists>a. settles_as (parse_approvals e) (approval e k) = Inr a)
           \<and> settles_as (parse_approvals e) (approval e j) = Inl err'
           \<and> (\<forall>w. result (openMergeRequests e g w) = Inl err')"
proof -
  let ?mrs = "select_authors (map snd (authors g)) all_mrs"
  let ?ord = "completion_order (length ?mrs) (completion e)"
  let ?bad = "\<lambda>k. \<exists>x. settles_as (parse_approvals e) (approval e k) = Inl x"
  have "\<exists>k \<in> set ?ord. ?bad k"
    using assms(2,3) by (auto simp: completion_order_set)
  then obtain pre j post where sp: "?ord = pre @ j # post" and j: "?bad j"
    and pre: "\<forall>k \<in> set pre. \<not> ?bad k"
    using split_list_first_prop [of ?ord ?bad] by blast
  obtain err' where err': "settles_as (parse_approvals e) (approval e j) = Inl err'"
    using j by blast
  have good: "\<forall>k \<in> set pre. \<exists>a. settles_as (parse_approvals e) (approval e k) = Inr a"
  proof
    fix k assume "k \<in> set pre"
    then have "\<not> ?bad k" using pre by blast
    then show "\<exists>a. settles_as (parse_approvals e) (approval e k) = Inr a"
      by (cases "settles_as (parse_approvals e) (approval e k)") auto
  qed
  have "result (openMergeRequests e g w) = Inl err'" for w
  proof -
    obtain w2 us where O: "openMergeRequests e g w = settle e (map (\<lambda>i. (i, us ! i)) ?ord) ?mrs w2"
      using openMergeRequests_Inr [OF assms(1)] by blast
    have tasks: "map (\<lambda>i. (i, us ! i)) ?ord =
                   map (\<lambda>i. (i, us ! i)) pre @ (j, us ! j) # map (\<lambda>i. (i, us ! i)) post"
      by (simp add: sp)
    have "\<forall>t \<in> set (map (\<lambda>i. (i, us ! i)) pre).
            \<exists>a. settles_as (parse_approvals e) (approval e (fst t)) = Inr a"
      using good by auto
    then show ?thesis
      using settle_failure [OF _ err', of "map (\<lambda>i. (i, us ! i)) pre" "us ! j" _ ?mrs w2]
      unfolding O tasks by blast
  qed
  then show ?thesis
    using sp good err' by blast
qed

lemma stdout_warnings: "stdout (foldl console_warn w ws) = stdout w"
  by (induction ws arbitrary: w) (simp_all add: console_warn_def)

lemma requests_warnings: "requests (foldl console_warn w ws) = requests w"
  by (induction ws arbitrary: w) (simp_all add: console_warn_def)

lemma main_config_unreadable:
  assumes "config_file e = Inl err"
  shows "stdout (main e) = [] \<and> requests (main e) = [] \<and> last (stderr (main e)) = message err"
  using assms by (simp add: main_def Let_def console_error_def stdout_log requests_log)

lemma main_constructor_throws:
  assumes "config_file e = Inr config" and "constructor config = Inl err"
  shows "stdout (main e) = [] \<and> requests (main e) = [] \<and> last (stderr (main e)) = message err"
  using assms by (simp add: main_def Let_def console_error_def stdout_log requests_log)

lemma main_failure:
  assumes "config_file e = Inr config" and "constructor config = Inr (ws, g)"
    and "\<forall>w. result (openMergeRequests e g w) = Inl err"
  shows "stdout (main e) = [] \<and> message err \<in> set (stderr (main e))"
proof -
  let ?w2 = "log (now e)
               (foldl console_warn
                  (log (now e) \<lparr>stdout = [], stderr = [], requests = []\<rparr>
                     (''Checking for configuration file '' @ rc_path e)) ws)
               (inspect e (authors g) (project_id g) (target_branch g))"
  let ?r = "openMergeRequests e g ?w2"
  have m: "main e = drain e (in_flight ?r) (console_error (world_of ?r) (message err))"
    using assms by (simp add: main_def Let_def)
  have "stdout ?w2 = []"
    by (simp add: stdout_log stdout_warnings)
  then have out: "stdout (main e) = []"
    by (simp add: m stdout_drain console_error_def stdout_openMergeRequests)
  have "message err \<in> set (stderr (console_error (world_of ?r) (message err)))"
    by (simp add: console_error_def)
  moreover have "prefix (stderr (console_error (world_of ?r) (message err))) (stderr (main e))"
    unfolding m by (rule stderr_drain)
  ultimately have "message err \<in> set (stderr (main e))"
    using set_mono_prefix by blast
  with out show ?thesis by simp
qed

lemma main_success:
  assumes "config_file e = Inr config" and "constructor config = Inr (ws, g)"
    and "\<forall>w. result (openMergeRequests e g w) = Inr enriched"
  shows "stdout (main e) = [report g enriched]"
proof -
  let ?w2 = "log (now e)
               (foldl console_warn
                  (log (now e) \<lparr>stdout = [], stderr = [], requests = []\<rparr>
                     (''Checking for configuration file '' @ rc_path e)) ws)
               (inspect e (authors g) (project_id g) (target_branch g))"
  have "stdout ?w2 = []"
    by (simp add: stdout_log stdout_warnings)
  then have "stdout (world_of (openMergeRequests e g ?w2)) = []"
    by (simp add: stdout_openMergeRequests)
  then show ?thesis
    using assms by (simp add: main_def Let_def console_warn_def console_log_def)
qed

text \<open>
  Claim C4. The run is all or nothing. If the listing request fails,
  \<open>openMergeRequests\<close> rejects with its error. If the listing succeeds and the
  approval request of some item fails, \<open>openMergeRequests\<close> rejects with the error
  of the first approval request, in the order of completion, that fails; when only
  one of them fails, with the error of that one. In both cases \<open>main\<close> writes
  nothing to standard output and the message of that error to standard error. Only
  when the listing and every approval request succeed does \<open>main\<close> write to
  standard output: the report of all the enriched items, once.
\<close>

theorem all_or_nothing:
  "(settles_as (parse_mrs e) (listing e) = Inl err
      \<longrightarrow> result (openMergeRequests e g w) = Inl err)
   \<and> (settles_as (parse_mrs e) (listing e) = Inr all_mrs
        \<and> i < length (select_authors (map snd (authors g)) all_mrs)
        \<and> settles_as (parse_approvals e) (approval e i) = Inl err
      \<longrightarrow> (\<exists>pre j post err'.
             completion_order (length (select_authors (map snd (authors g)) all_mrs)) (completion e)
               = pre @ j # post
             \<and> (\<forall>k \<in> set pre. \<exists>a. settles_as (parse_approvals e) (approval e k) = Inr a)
             \<and> settles_as (parse_approvals e) (approval e j) = Inl err'
             \<and> result (openMergeRequests e g w) = Inl err'))
   \<and> (settles_as (parse_mrs e) (listing e) = Inr all_mrs
        \<and> i < length (select_authors (map snd (authors g)) all_mrs)
        \<and> settles_as (parse_approvals e) (approval e i) = Inl err
        \<and> (\<forall>k < length (select_authors (map snd (authors g)) all_mrs).
              k \<noteq> i \<longrightarrow> (\<exists>a. settles_as (parse_approvals e) (approval e k) = Inr a))
      \<longrightarrow> result (openMergeRequests e g w) = Inl err)
   \<and> (config_file e = Inr config \<and> constructor config = Inr (ws, g)
        \<and> (settles_as (parse_mrs e) (listing e) = Inl err
            \<or> settles_as (parse_mrs e) (listing e) = Inr all_mrs
              \<and> i < length (select_authors (map snd (authors g)) all_mrs)
              \<and> settles_as (parse_approvals e) (approval e i) = Inl err)
      \<longrightarrow> stdout (main e) = []
          \<and> (\<exists>err'. result (openMergeRequests e g w) = Inl err'
                \<and> message err' \<in> set (stderr (main e))))
   \<and> (config_file e = Inr config \<and> constructor config = Inr (ws, g)
        \<and> settles_as (parse_mrs e) (listing e) = Inr all_mrs
        \<and> (\<forall>k < length (select_authors (map snd (authors g)) all_mrs).
              settles_as (parse_approvals e) (approval e k) = Inr (a k))
      \<longrightarrow> stdout (main e) =
            [report g (map (\<lambda>k. enrich (a k) (select_authors (map snd (authors g)) all_mrs ! k))
                         [0..<length (select_authors (map snd (authors g)) all_mrs)])])"
proof (intro conjI impI)
  assume "settles_as (parse_mrs e) (listing e) = Inl err"
  then show "result (openMergeRequests e g w) = Inl err"
    by (simp add: openMergeRequests_Inl)
next
  assume "settles_as (parse_mrs e) (listing e) = Inr all_mrs
        \<and> i < length (select_authors (map snd (authors g)) all_mrs)
        \<and> settles_as (parse_approvals e) (approval e i) = Inl err"
  then show "\<exists>pre j post err'.
             completion_order (length (select_authors (map snd (authors g)) all_mrs)) (completion e)
               = pre @ j # post
             \<and> (\<forall>k \<in> set pre. \<exists>a. settles_as (parse_approvals e) (approval e k) = Inr a)
             \<and> settles_as (parse_approvals e) (approval e j) = Inl err'
             \<and> result (openMergeRequests e g w) = Inl err'"
    using openMergeRequests_failure [of e all_mrs i g err] by blast
next
  let ?n = "length (select_authors (map snd (authors g)) all_mrs)"
  assume a: "settles_as (parse_mrs e) (listing e) = Inr all_mrs
        \<and> i < ?n
        \<and> settles_as (parse_approvals e) (approval e i) = Inl err
        \<and> (\<forall>k < ?n. k \<noteq> i \<longrightarrow> (\<exists>a. settles_as (parse_approvals e) (approval e k) = Inr a))"
  then obtain pre j post err' where
    sp: "completion_order ?n (completion e) = pre @ j # post"
    and j: "settles_as (parse_approvals e) (approval e j) = Inl err'"
    and r: "result (openMergeRequests e g w) = Inl err'"
    using openMergeRequests_failure [of e all_mrs i g err] by blast
  have "j \<in> set (completion_order ?n (completion e))"
    by (simp add: sp)
  then have "j < ?n"
    by (simp add: completion_order_set)
  then have "j = i"
    using a j by (cases "j = i") auto
  then show "result (openMergeRequests e g w) = Inl err"
    using a j r by simp
next
  assume a: "config_file e = Inr config \<and> constructor config = Inr (ws, g)
        \<and> (settles_as (parse_mrs e) (listing e) = Inl err
            \<or> settles_as (parse_mrs e) (listing e) = Inr all_mrs
              \<and> i < length (select_authors (map snd (authors g)) all_mrs)
              \<and> settles_as (parse_approvals e) (approval e i) = Inl err)"
  have "\<exists>err'. \<forall>w. result (openMergeRequests e g w) = Inl err'"
  proof (cases "settles_as (parse_mrs e) (listing e)")
    case (Inl x)
    then show ?thesis by (simp add: openMergeRequests_Inl)
  next
    case (Inr ms)
    then show ?thesis
      using a openMergeRequests_failure [of e all_mrs i g err] by auto
  qed
  then obtain err' where err': "\<forall>w. result (openMergeRequests e g w) = Inl err'"
    by blast
  have "stdout (main e) = [] \<and> message err' \<in> set (stderr (main e))"
    using a err' main_failure [of e config ws g err'] by blast
  then have "result (openMergeRequests e g w) = Inl err' \<and> message err' \<in> set (stderr (main e))"
    and "stdout (main e) = []"
    using err' by simp_all
  then show "stdout (main e) = []"
    and "\<exists>err'. result (openMergeRequests e g w) = Inl err' \<and> message err' \<in> set (stderr (main e))"
    by blast+
next
  assume a: "config_file e = Inr config \<and> constructor config = Inr (ws, g)
        \<and> settles_as (parse_mrs e) (listing e) = Inr all_mrs
        \<and> (\<forall>k < length (select_authors (map snd (authors g)) all_mrs).
              settles_as (parse_approvals e) (approval e k) = Inr (a k))"
  let ?out = "map (\<lambda>k. enrich (a k) (select_authors (map snd (authors g)) all_mrs ! k))
                [0..<length (select_authors (map snd (authors g)) all_mrs)]"
  have "\<forall>w. result (openMergeRequests e g w) = Inr ?out"
    using a openMergeRequests_success [of e all_mrs g a] by blast
  then show "stdout (main e) = [report g ?out]"
    using a main_success [of e config ws g ?out] by blast
qed

theorem all_or_nothing_witness:
  "result (openMergeRequests demo_env_fail demo_gitlab demo_world) = Inl (StatusError 500)
   \<and> stdout (main demo_env_fail) = []
   \<and> stdout (main demo_env) =
       [report demo_gitlab [enrich (approvals 1) mr_conflict, enrich (approvals 0) mr_clean]]"
proof -
  have c': "config_file demo_env = Inr (Some demo_config)"
    by (simp add: demo_env_def)
  have ok: "\<forall>k < length (select_authors (map snd (authors demo_gitlab)) [mr_conflict, mr_clean]).
      settles_as (parse_approvals demo_env) (approval demo_env k) =
        Inr (if k = 0 then approvals 1 else approvals 0)"
    by (simp add: demo_approval)
  have "stdout (main demo_env) =
          [report demo_gitlab
             (map (\<lambda>k. enrich (if k = 0 then approvals 1 else approvals 0)
                          (select_authors (map snd (authors demo_gitlab)) [mr_conflict, mr_clean] ! k))
                [0..<length (select_authors (map snd (authors demo_gitlab)) [mr_conflict, mr_clean])])]"
    using all_or_nothing [where e = demo_env and g = demo_gitlab and all_mrs = "[mr_conflict, mr_clean]"
            and config = "Some demo_config" and ws = "[]"
            and a = "\<lambda>k. if k = 0 then approvals 1 else approvals 0"]
          c' ok demo_listing demo_constructor
    by blast
  moreover have "[0..<2] = [0, 1]"
    by (simp add: upt_rec)
  ultimately have success: "stdout (main demo_env) =
       [report demo_gitlab [enrich (approvals 1) mr_conflict, enrich (approvals 0) mr_clean]]"
    by (simp add: demo_selected)
  have c: "config_file demo_env_fail = Inr (Some demo_config)"
    by (simp add: demo_env_fail_def demo_env_def)
  have i: "0 < length (select_authors (map snd (authors demo_gitlab)) [mr_conflict, mr_clean])"
    by (simp add: demo_selected)
  have others: "\<forall>k < length (select_authors (map snd (authors demo_gitlab)) [mr_conflict, mr_clean]).
     k \<noteq> 0 \<longrightarrow> (\<exists>a. settles_as (parse_approvals demo_env_fail) (approval demo_env_fail k) = Inr a)"
    by (simp add: demo_fail_approval_other)
  show ?thesis
    using all_or_nothing [of demo_env_fail "StatusError 500" demo_gitlab demo_world
            "[mr_conflict, mr_clean]" 0 "Some demo_config" "[]"]
          c i others demo_fail_listing demo_fail_approval_0 demo_constructor success
    by blast
qed

lemma enrich_fields:
  "enrich a mr = mr\<lparr>approvals_needed := approvals_needed (enrich a mr),
                     blockers := blockers (enrich a mr)\<rparr>"
  by (simp add: enrich_def Let_def)

lemma enrich_assigns:
  "enrich a mr =
     mr\<lparr>approvals_needed := approvals_left a,
        blockers := findBlockers (mr\<lparr>approvals_needed := approvals_left a\<rparr>)\<rparr>"
  by (simp add: enrich_def Let_def)

lemma openMergeRequests_returns:
  assumes "settles_as (parse_mrs e) (listing e) = Inr all_mrs"
    and "result (openMergeRequests e g w) = Inr out"
  shows "\<exists>b. (\<forall>i < length (select_authors (map snd (authors g)) all_mrs).
                settles_as (parse_approvals e) (approval e i) = Inr (b i))
             \<and> out = map (\<lambda>i. enrich (b i) (select_authors (map snd (authors g)) all_mrs ! i))
                        [0..<length (select_authors (map snd (authors g)) all_mrs)]"
proof -
  let ?mrs = "select_authors (map snd (authors g)) all_mrs"
  have ok: "\<exists>x. settles_as (parse_approvals e) (approval e i) = Inr x" if "i < length ?mrs" for i
  proof (cases "settles_as (parse_approvals e) (approval e i)")
    case (Inl err)
    then show ?thesis
      using assms that openMergeRequests_failure [of e all_mrs i g err] by auto
  next
    case (Inr x)
    then show ?thesis by simp
  qed
  define b where "b i = projr (settles_as (parse_approvals e) (approval e i))" for i
  have all: "\<forall>i < length ?mrs. settles_as (parse_approvals e) (approval e i) = Inr (b i)"
  proof (intro allI impI)
    fix i assume "i < length ?mrs"
    then obtain x where "settles_as (parse_approvals e) (approval e i) = Inr x"
      using ok by blast
    then show "settles_as (parse_approvals e) (approval e i) = Inr (b i)"
      by (simp add: b_def)
  qed
  then have "result (openMergeRequests e g w) =
               Inr (map (\<lambda>i. enrich (b i) (?mrs ! i)) [0..<length ?mrs])"
    using assms(1) openMergeRequests_success [of e all_mrs g b w] by simp
  then have "out = map (\<lambda>i. enrich (b i) (?mrs ! i)) [0..<length ?mrs]"
    using assms(2) by simp
  with all show ?thesis by blast
qed

lemma toString_1: "toString 1 = ''1''"
  by (simp add: toString_def digits.simps [of 1] digits.simps [of "Suc 0"])

text \<open>
  Claim C6. When the listing and every approval request succeed, then for every
  order in which the approval requests end (every permutation of the positions is
  the order of completion it names) the value of \<open>openMergeRequests\<close> is the
  filtered list with each item enriched at its own position. Whenever
  \<open>openMergeRequests\<close> returns a list, it has the length and the \<open>iid\<close>s of the
  filtered list, in the same order, and each item differs from the one at its
  position at most in \<open>approvals_needed\<close> and \<open>blockers\<close>. Enrichment assigns
  exactly these two fields: \<open>approvals_needed\<close> becomes the \<open>approvals_left\<close> of
  the approval status received for the item at that position, and \<open>blockers\<close>
  becomes \<open>findBlockers\<close> of the item with that count already assigned.
\<close>

theorem enrichment_keeps_order:
  "(settles_as (parse_mrs e) (listing e) = Inr all_mrs
      \<and> (\<forall>i < length (select_authors (map snd (authors g)) all_mrs).
            settles_as (parse_approvals e) (approval e i) = Inr (a i))
    \<longrightarrow> (\<forall>ord. result (openMergeRequests (e\<lparr>completion := ord\<rparr>) g w) =
           Inr (map (\<lambda>i. enrich (a i) (select_authors (map snd (authors g)) all_mrs ! i))
                  [0..<length (select_authors (map snd (authors g)) all_mrs)])))
   \<and> (settles_as (parse_mrs e) (listing e) = Inr all_mrs
      \<and> result (openMergeRequests e g w) = Inr out
    \<longrightarrow> length out = length (select_authors (map snd (authors g)) all_mrs)
        \<and> map iid out = map iid (select_authors (map snd (authors g)) all_mrs)
        \<and> (\<forall>k < length out.
              out ! k = (select_authors (map snd (authors g)) all_mrs ! k)
                          \<lparr>approvals_needed := approvals_needed (out ! k),
                           blockers := blockers (out ! k)\<rparr>))
   \<and> (distinct perm \<and> set perm = {0..<n} \<longrightarrow> completion_order n perm = perm)
   \<and> enrich x mr =
       mr\<lparr>approvals_needed := approvals_left x,
          blockers := findBlockers (mr\<lparr>approvals_needed := approvals_left x\<rparr>)\<rparr>
   \<and> (settles_as (parse_mrs e) (listing e) = Inr all_mrs
      \<and> (\<forall>i < length (select_authors (map snd (authors g)) all_mrs).
            settles_as (parse_approvals e) (approval e i) = Inr (a i))
    \<longrightarrow> (\<forall>ord. result (openMergeRequests (e\<lparr>completion := ord\<rparr>) g w) =
           Inr (map (\<lambda>i. (select_authors (map snd (authors g)) all_mrs ! i)
                           \<lparr>approvals_needed := approvals_left (a i),
                            blockers := findBlockers
                              ((select_authors (map snd (authors g)) all_mrs ! i)
                                 \<lparr>approvals_needed := approvals_left (a i)\<rparr>)\<rparr>)
                  [0..<length (select_authors (map snd (authors g)) all_mrs)])))
   \<and> (settles_as (parse_mrs e) (listing e) = Inr all_mrs
      \<and> result (openMergeRequests e g w) = Inr out
    \<longrightarrow> (\<forall>k < length out.
           \<exists>st. settles_as (parse_approvals e) (approval e k) = Inr st
              \<and> approvals_needed (out ! k) = approvals_left st
              \<and> blockers (out ! k) =
                  findBlockers ((select_authors (map snd (authors g)) all_mrs ! k)
                                  \<lparr>approvals_needed := approvals_left st\<rparr>)))"
proof (intro conjI impI allI)
  fix ord
  let ?mrs = "select_authors (map snd (authors g)) all_mrs"
  assume a: "settles_as (parse_mrs e) (listing e) = Inr all_mrs
      \<and> (\<forall>i < length ?mrs. settles_as (parse_approvals e) (approval e i) = Inr (a i))"
  show "result (openMergeRequests (e\<lparr>completion := ord\<rparr>) g w) =
          Inr (map (\<lambda>i. enrich (a i) (?mrs ! i)) [0..<length ?mrs])"
    using a openMergeRequests_success [of "e\<lparr>completion := ord\<rparr>" all_mrs g a w] by simp
next
  let ?mrs = "select_authors (map snd (authors g)) all_mrs"
  assume a: "settles_as (parse_mrs e) (listing e) = Inr all_mrs
      \<and> result (openMergeRequests e g w) = Inr out"
  have ok: "\<exists>x. settles_as (parse_approvals e) (approval e i) = Inr x" if "i < length ?mrs" for i
  proof (cases "settles_as (parse_approvals e) (approval e i)")
    case (Inl err)
    then show ?thesis
      using a that openMergeRequests_failure [of e all_mrs i g err] by auto
  next
    case (Inr x)
    then show ?thesis by simp
  qed
  define b where "b i = projr (settles_as (parse_approvals e) (approval e i))" for i
  have "\<forall>i < length ?mrs. settles_as (parse_approvals e) (approval e i) = Inr (b i)"
  proof (intro allI impI)
    fix i assume "i < length ?mrs"
    then obtain x where "settles_as (parse_approvals e) (approval e i) = Inr x"
      using ok by blast
    then show "settles_as (parse_approvals e) (approval e i) = Inr (b i)"
      by (simp add: b_def)
  qed
  then have "result (openMergeRequests e g w) = Inr (map (\<lambda>i. enrich (b i) (?mrs ! i)) [0..<length ?mrs])"
    using a openMergeRequests_success [of e all_mrs g b w] by simp
  then have out: "out = map (\<lambda>i. enrich (b i) (?mrs ! i)) [0..<length ?mrs]"
    using a by simp
  show "length out = length ?mrs"
    by (simp add: out)
  show "map iid out = map iid ?mrs"
    by (rule nth_equalityI) (simp_all add: out enrich_def Let_def)
  show "out ! k = (?mrs ! k)\<lparr>approvals_needed := approvals_needed (out ! k),
                              blockers := blockers (out ! k)\<rparr>" if "k < length out" for k
    using that enrich_fields [of "b k" "?mrs ! k"] by (simp add: out)
next
  assume "distinct perm \<and> set perm = {0..<n}"
  then show "completion_order n perm = perm"
    by (simp add: completion_order_perm)
next
  show "enrich x mr =
       mr\<lparr>approvals_needed := approvals_left x,
          blockers := findBlockers (mr\<lparr>approvals_needed := approvals_left x\<rparr>)\<rparr>"
    by (rule enrich_assigns)
next
  fix ord
  let ?mrs = "select_authors (map snd (authors g)) all_mrs"
  assume a: "settles_as (parse_mrs e) (listing e) = Inr all_mrs
      \<and> (\<forall>i < length ?mrs. settles_as (parse_approvals e) (approval e i) = Inr (a i))"
  have "result (openMergeRequests (e\<lparr>completion := ord\<rparr>) g w) =
          Inr (map (\<lambda>i. enrich (a i) (?mrs ! i)) [0..<length ?mrs])"
    using a openMergeRequests_success [of "e\<lparr>completion := ord\<rparr>" all_mrs g a w] by simp
  then show "result (openMergeRequests (e\<lparr>completion := ord\<rparr>) g w) =
          Inr (map (\<lambda>i. (?mrs ! i)
                          \<lparr>approvals_needed := approvals_left (a i),
                           blockers := findBlockers
                             ((?mrs ! i)\<lparr>approvals_needed := approvals_left (a i)\<rparr>)\<rparr>)
                 [0..<length ?mrs])"
    by (simp only: enrich_assigns)
next
  fix k
  let ?mrs = "select_authors (map snd (authors g)) all_mrs"
  assume a: "settles_as (parse_mrs e) (listing e) = Inr all_mrs
      \<and> result (openMergeRequests e g w) = Inr out"
    and k: "k < length out"
  obtain b where b: "\<forall>i < length ?mrs. settles_as (parse_approvals e) (approval e i) = Inr (b i)"
    and out: "out = map (\<lambda>i. enrich (b i) (?mrs ! i)) [0..<length ?mrs]"
    using openMergeRequests_returns [of e all_mrs g w out] a by blast
  have kl: "k < length ?mrs"
    using k by (simp add: out)
  have "out ! k = enrich (b k) (?mrs ! k)"
    using kl by (simp add: out)
  then have "approvals_needed (out ! k) = approvals_left (b k)"
    and "blockers (out ! k) =
           findBlockers ((?mrs ! k)\<lparr>approvals_needed := approvals_left (b k)\<rparr>)"
    by (simp_all add: enrich_assigns)
  then show "\<exists>st. settles_as (parse_approvals e) (approval e k) = Inr st
              \<and> approvals_needed (out ! k) = approvals_left st
              \<and> blockers (out ! k) =
                  findBlockers ((?mrs ! k)\<lparr>approvals_needed := approvals_left st\<rparr>)"
    using b kl by blast
qed

theorem enrichment_keeps_order_witness:
  "result (openMergeRequests (demo_env\<lparr>completion := [1, 0]\<rparr>) demo_gitlab demo_world) =
     Inr [enrich (approvals 1) mr_conflict, enrich (approvals 0) mr_clean]
   \<and> result (openMergeRequests (demo_env\<lparr>completion := [0, 1]\<rparr>) demo_gitlab demo_world) =
     Inr [enrich (approvals 1) mr_conflict, enrich (approvals 0) mr_clean]
   \<and> result (openMergeRequests (demo_env\<lparr>completion := [1, 0]\<rparr>) demo_gitlab demo_world) =
     Inr [mr_conflict\<lparr>approvals_needed := 1,
                      blockers := [''has conflicts'', ''cannot be merged'', ''requires approval (1)'']\<rparr>,
          mr_clean\<lparr>approvals_needed := 0, blockers := []\<rparr>]
   \<and> result (openMergeRequests (demo_env\<lparr>completion := [0, 1]\<rparr>) demo_gitlab demo_world) =
     Inr [mr_conflict\<lparr>approvals_needed := 1,
                      blockers := [''has conflicts'', ''cannot be merged'', ''requires approval (1)'']\<rparr>,
          mr_clean\<lparr>approvals_needed := 0, blockers := []\<rparr>]"
proof -
  let ?a = "\<lambda>i::nat. if i = 0 then approvals 1 else approvals 0"
  let ?mrs = "select_authors (map snd (authors demo_gitlab)) [mr_conflict, mr_clean]"
  have ok: "\<forall>i < length ?mrs.
      settles_as (parse_approvals demo_env) (approval demo_env i) = Inr (?a i)"
    by (simp add: demo_approval)
  have upt: "[0..<2] = [0, 1]"
    by (simp add: upt_rec)
  have sym: "\<forall>ord. result (openMergeRequests (demo_env\<lparr>completion := ord\<rparr>) demo_gitlab demo_world) =
     Inr (map (\<lambda>i. enrich (?a i) (?mrs ! i)) [0..<length ?mrs])"
    using enrichment_keeps_order [where e = demo_env and all_mrs = "[mr_conflict, mr_clean]"
            and g = demo_gitlab and a = ?a and w = demo_world]
          ok demo_listing
    by blast
  have val: "\<forall>ord. result (openMergeRequests (demo_env\<lparr>completion := ord\<rparr>) demo_gitlab demo_world) =
     Inr (map (\<lambda>i. (?mrs ! i)
                     \<lparr>approvals_needed := approvals_left (?a i),
                      blockers := findBlockers ((?mrs ! i)\<lparr>approvals_needed := approvals_left (?a i)\<rparr>)\<rparr>)
            [0..<length ?mrs])"
    using enrichment_keeps_order [where e = demo_env and all_mrs = "[mr_conflict, mr_clean]"
            and g = demo_gitlab and a = ?a and w = demo_world]
          ok demo_listing
    by blast
  have b1: "findBlockers (mr_conflict\<lparr>approvals_needed := 1\<rparr>) =
              [''has conflicts'', ''cannot be merged'', ''requires approval (1)'']"
    by (simp add: findBlockers_def Let_def mr_conflict_def toString_1)
  have b0: "findBlockers (mr_clean\<lparr>approvals_needed := 0\<rparr>) = []"
    by (simp add: findBlockers_def Let_def mr_clean_def)
  have concrete: "\<forall>ord. result (openMergeRequests (demo_env\<lparr>completion := ord\<rparr>) demo_gitlab demo_world) =
     Inr [mr_conflict\<lparr>approvals_needed := 1,
                      blockers := [''has conflicts'', ''cannot be merged'', ''requires approval (1)'']\<rparr>,
          mr_clean\<lparr>approvals_needed := 0, blockers := []\<rparr>]"
    using val by (simp add: demo_selected upt approvals_def b1 b0)
  show ?thesis
    using sym concrete by (simp add: demo_selected upt)
qed

section \<open>Required and optional configuration in the run\<close>

lemma form_encode_names:
  "form_encode ''scope'' = ''scope''" "form_encode ''all'' = ''all''"
  "form_encode ''state'' = ''state''" "form_encode ''opened'' = ''opened''"
  "form_encode ''target_branch'' = ''target_branch''"
  by (simp_all add: form_encode_def form_safe_def)

lemma stderr_warnings: "stderr (foldl console_warn w ws) = stderr w @ ws"
  by (induction ws arbitrary: w) (simp_all add: console_warn_def)

lemma stderr_get_start: "prefix (stderr w) (stderr (fst (get_start clock g uri params w)))"
  by (simp add: get_start_eq Let_def stderr_log)

lemma requests_get_start:
  "requests (fst (get_start clock g uri params w)) =
     requests w @
       [\<lparr>url = GITLAB_API_BASE @ ''/projects/'' @ toString (project_id g) @ snd (get_start clock g uri params w),
         headers = [(''authorization'', ''Bearer '' @ api_token g)]\<rparr>]"
  by (simp add: get_start_eq Let_def)

lemma listing_logUrl:
  "snd (get_start clock g ''/merge_requests''
          (Some [(''scope'', ''all''), (''state'', ''opened''), (''target_branch'', b)]) w) =
     ''/merge_requests?scope=all&state=opened&target_branch='' @ form_encode b"
  by (simp add: get_start_eq Let_def URLSearchParams_toString_def form_encode_names)

lemma stderr_get: "prefix (stderr w) (stderr (fst (get p clock g uri params out w)))"
proof -
  obtain w1 u where S: "get_start clock g uri params w = (w1, u)"
    by (cases "get_start clock g uri params w")
  have "prefix (stderr w) (stderr w1)"
    using stderr_get_start [of w clock g uri params] S by simp
  also have "prefix (stderr w1) (stderr (fst (get_end p clock u out w1)))"
    by (rule stderr_get_end)
  finally show ?thesis
    by (simp add: get_def S)
qed

lemma requests_get:
  "requests (fst (get p clock g uri params out w)) =
     requests w @
       [\<lparr>url = GITLAB_API_BASE @ ''/projects/'' @ toString (project_id g) @ snd (get_start clock g uri params w),
         headers = [(''authorization'', ''Bearer '' @ api_token g)]\<rparr>]"
proof -
  obtain w1 u where S: "get_start clock g uri params w = (w1, u)"
    by (cases "get_start clock g uri params w")
  show ?thesis
    using requests_get_start [of clock g uri params w]
    by (simp add: get_def S requests_get_end)
qed

lemma start_all_extends:
  "prefix (stderr w) (stderr (fst (start_all clock g mrs w)))
   \<and> prefix (requests w) (requests (fst (start_all clock g mrs w)))"
proof (induction mrs arbitrary: w)
  case Nil
  show ?case by simp
next
  case (Cons mr mrs)
  let ?uri = "''/merge_requests/'' @ toString (iid mr) @ ''/approvals''"
  obtain w1 u where S: "get_start clock g ?uri None w = (w1, u)"
    by (cases "get_start clock g ?uri None w")
  obtain w2 us where A: "start_all clock g mrs w1 = (w2, us)"
    by (cases "start_all clock g mrs w1")
  have 1: "prefix (stderr w) (stderr w1)"
    using stderr_get_start [of w clock g ?uri None] S by simp
  have 2: "prefix (requests w) (requests w1)"
    using requests_get_start [of clock g ?uri None w] S by simp
  have 3: "prefix (stderr w1) (stderr w2)" and 4: "prefix (requests w1) (requests w2)"
    using Cons.IH [of w1] A by simp_all
  have f: "fst (start_all clock g (mr # mrs) w) = w2"
    using S A by (simp add: Let_def)
  show ?case
    unfolding f using prefix_order.trans [OF 1 3] prefix_order.trans [OF 2 4] by simp
qed

lemma settle_extends:
  "prefix (stderr w) (stderr (world_of (settle e tasks mrs w)))
   \<and> requests (world_of (settle e tasks mrs w)) = requests w"
proof (induction tasks arbitrary: mrs w)
  case Nil
  show ?case by simp
next
  case (Cons t tasks)
  obtain i u where t: "t = (i, u)" by (cases t)
  obtain w1 r where ge: "get_end (parse_approvals e) (now e) u (approval e i) w = (w1, r)"
    by (cases "get_end (parse_approvals e) (now e) u (approval e i) w")
  have 1: "prefix (stderr w) (stderr w1)"
    using stderr_get_end [of w "parse_approvals e" "now e" u "approval e i"] ge by simp
  have 2: "requests w1 = requests w"
    using requests_get_end [of "parse_approvals e" "now e" u "approval e i" w] ge by simp
  show ?case
  proof (cases r)
    case (Inl err)
    then show ?thesis by (simp add: t ge 1 2)
  next
    case (Inr a)
    have s: "settle e (t # tasks) mrs w = settle e tasks (mrs[i := enrich a (mrs ! i)]) w1"
      by (simp add: t ge Inr)
    have ih: "prefix (stderr w1) (stderr (world_of (settle e tasks (mrs[i := enrich a (mrs ! i)]) w1)))"
      and ih2: "requests (world_of (settle e tasks (mrs[i := enrich a (mrs ! i)]) w1)) = requests w1"
      using Cons.IH by simp_all
    show ?thesis
      unfolding s using prefix_order.trans [OF 1 ih] ih2 2 by simp
  qed
qed

lemma requests_drain: "requests (drain e tasks w) = requests w"
proof (induction tasks arbitrary: w)
  case Nil
  show ?case by simp
next
  case (Cons t tasks)
  obtain i u where t: "t = (i, u)" by (cases t)
  show ?case by (simp add: t Cons.IH requests_get_end)
qed


lemma openMergeRequests_extends:
  "prefix (stderr w) (stderr (world_of (openMergeRequests e g w)))
   \<and> prefix (requests w @
        [\<lparr>url = GITLAB_API_BASE @ ''/projects/'' @ toString (project_id g)
                 @ ''/merge_requests?scope=all&state=opened&target_branch=''
                 @ form_encode (target_branch g),
          headers = [(''authorization'', ''Bearer '' @ api_token g)]\<rparr>])
       (requests (world_of (openMergeRequests e g w)))"
proof -
  let ?ps = "Some [(''scope'', ''all''), (''state'', ''opened''), (''target_branch'', target_branch g)]"
  let ?G = "get (parse_mrs e) (now e) g ''/merge_requests'' ?ps (listing e) w"
  let ?req = "\<lparr>url = GITLAB_API_BASE @ ''/projects/'' @ toString (project_id g)
                 @ ''/merge_requests?scope=all&state=opened&target_branch=''
                 @ form_encode (target_branch g),
          headers = [(''authorization'', ''Bearer '' @ api_token g)]\<rparr>"
  obtain w1 r where G: "?G = (w1, r)" by (cases ?G)
  have "prefix (stderr w) (stderr (fst ?G))"
    by (rule stderr_get)
  then have 1: "prefix (stderr w) (stderr w1)"
    by (simp add: G)
  have "requests (fst ?G) = requests w @ [?req]"
    unfolding requests_get listing_logUrl by simp
  then have 2: "requests w1 = requests w @ [?req]"
    by (simp add: G)
  show ?thesis
  proof (cases r)
    case (Inl err)
    then show ?thesis by (simp add: openMergeRequests_def G 1 2)
  next
    case (Inr all_mrs)
    let ?mrs = "select_authors (map snd (authors g)) all_mrs"
    obtain w2 us where S: "start_all (now e) g ?mrs w1 = (w2, us)"
      by (cases "start_all (now e) g ?mrs w1")
    have 3: "prefix (stderr w1) (stderr w2)" and 4: "prefix (requests w1) (requests w2)"
      using start_all_extends [of w1 "now e" g ?mrs] S by simp_all
    let ?tasks = "map (\<lambda>i. (i, us ! i)) (completion_order (length ?mrs) (completion e))"
    have 5: "prefix (stderr w2) (stderr (world_of (settle e ?tasks ?mrs w2)))"
      and 6: "requests (world_of (settle e ?tasks ?mrs w2)) = requests w2"
      using settle_extends [of w2 e ?tasks ?mrs] by simp_all
    have O: "openMergeRequests e g w = settle e ?tasks ?mrs w2"
      by (simp add: openMergeRequests_def G Inr Let_def S)
    have "prefix (stderr w) (stderr (world_of (settle e ?tasks ?mrs w2)))"
      using prefix_order.trans [OF prefix_order.trans [OF 1 3] 5] .
    moreover have "prefix (requests w @ [?req]) (requests (world_of (settle e ?tasks ?mrs w2)))"
      using 4 unfolding 6 2 .
    ultimately show ?thesis
      unfolding O by simp
  qed
qed

lemma main_proceeds:
  assumes "config_file e = Inr config" and "constructor config = Inr (ws, g)"
  shows "set ws \<subseteq> set (stderr (main e))
         \<and> prefix [\<lparr>url = GITLAB_API_BASE @ ''/projects/'' @ toString (project_id g)
                 @ ''/merge_requests?scope=all&state=opened&target_branch=''
                 @ form_encode (target_branch g),
                 headers = [(''authorization'', ''Bearer '' @ api_token g)]\<rparr>]
              (requests (main e))"
proof -
  let ?w0 = "log (now e) \<lparr>stdout = [], stderr = [], requests = []\<rparr>
               (''Checking for configuration file '' @ rc_path e)"
  let ?w2 = "log (now e) (foldl console_warn ?w0 ws)
               (inspect e (authors g) (project_id g) (target_branch g))"
  let ?r = "openMergeRequests e g ?w2"
  let ?req = "\<lparr>url = GITLAB_API_BASE @ ''/projects/'' @ toString (project_id g)
                 @ ''/merge_requests?scope=all&state=opened&target_branch=''
                 @ form_encode (target_branch g),
                 headers = [(''authorization'', ''Bearer '' @ api_token g)]\<rparr>"
  have w2: "set ws \<subseteq> set (stderr ?w2)" and w2r: "requests ?w2 = []"
    by (auto simp: stderr_log stderr_warnings requests_log requests_warnings)
  have r1: "prefix (stderr ?w2) (stderr (world_of ?r))"
    using openMergeRequests_extends [of ?w2 e g] by simp
  have r2: "prefix [?req] (requests (world_of ?r))"
    using openMergeRequests_extends [of ?w2 e g] unfolding w2r by simp
  have fin: "prefix (stderr (world_of ?r)) (stderr (main e)) \<and> requests (main e) = requests (world_of ?r)"
  proof (cases "result ?r")
    case (Inl err)
    have m: "main e = drain e (in_flight ?r) (console_error (world_of ?r) (message err))"
      using assms Inl by (simp add: main_def Let_def)
    have a: "prefix (stderr (world_of ?r)) (stderr (console_error (world_of ?r) (message err)))"
      by (simp add: console_error_def)
    have b: "prefix (stderr (console_error (world_of ?r) (message err))) (stderr (main e))"
      unfolding m by (rule stderr_drain)
    show ?thesis
      using prefix_order.trans [OF a b] by (simp add: m requests_drain console_error_def)
  next
    case (Inr enriched)
    then show ?thesis
      using assms by (simp add: main_def Let_def console_warn_def console_log_def)
  qed
  have "set (stderr ?w2) \<subseteq> set (stderr (main e))"
    using set_mono_prefix [OF prefix_order.trans [OF r1 conjunct1 [OF fin]]] .
  then have "set ws \<subseteq> set (stderr (main e))"
    using w2 by blast
  moreover have "prefix [?req] (requests (main e))"
    using r2 fin by simp
  ultimately show ?thesis by simp
qed

lemma constructor_no_authors:
  assumes "\<not> falsy_str (cfg_api_token c)" and "\<not> falsy_num (cfg_project_id c)"
    and "cfg_authors c = None \<or> cfg_authors c = Some []"
  shows "\<exists>ws g. constructor (Some c) =
           Inr (''missing or empty property `authors`'' # ''all open project MRs will be returned'' # ws, g)
         \<and> authors g = []"
proof -
  obtain t where t: "cfg_api_token c = Some t" "t \<noteq> []"
    using assms(1) by (auto simp: falsy_str_def split: option.splits)
  obtain p where p: "cfg_project_id c = Some p" "p \<noteq> 0"
    using assms(2) by (auto simp: falsy_num_def split: option.splits)
  show ?thesis
    using assms(3) t p
    by (auto simp: constructor_def opt_field_def falsy_str_def falsy_num_def Let_def)
qed

text \<open>
  Claim C7. A configuration without \<open>api_token\<close> or without \<open>project_id\<close> makes the
  constructor throw one of the two configuration errors (the one for \<open>api_token\<close>
  when that field is absent), and the run then issues no request, writes nothing to
  standard output and ends with the message of that error on standard error. With
  both fields accepted, a missing or empty \<open>authors\<close> table does not throw: the
  constructor returns the object, having warned, with an empty table; the author
  filter is then the identity, and the run goes on to issue the listing request.
\<close>

theorem constructor_required_fields:
  "((cfg_api_token c = None \<or> cfg_project_id c = None) \<longrightarrow>
      (constructor (Some c) = Inl (ConfigError missing_api_token)
       \<or> constructor (Some c) = Inl (ConfigError missing_project_id))
      \<and> (cfg_api_token c = None \<longrightarrow> constructor (Some c) = Inl (ConfigError missing_api_token))
      \<and> (config_file e = Inr (Some c) \<longrightarrow>
            requests (main e) = [] \<and> stdout (main e) = []
            \<and> (last (stderr (main e)) = missing_api_token
               \<or> last (stderr (main e)) = missing_project_id)))
   \<and> (\<not> falsy_str (cfg_api_token c) \<and> \<not> falsy_num (cfg_project_id c)
        \<and> (cfg_authors c = None \<or> cfg_authors c = Some []) \<longrightarrow>
      (\<exists>ws g. constructor (Some c) = Inr (ws, g)
         \<and> ''missing or empty property `authors`'' \<in> set ws
         \<and> authors g = []
         \<and> select_authors (map snd (authors g)) items = items
         \<and> (config_file e = Inr (Some c) \<longrightarrow>
               ''missing or empty property `authors`'' \<in> set (stderr (main e))
               \<and> requests (main e) \<noteq> []
               \<and> url (hd (requests (main e))) =
                   GITLAB_API_BASE @ ''/projects/'' @ toString (project_id g)
                     @ ''/merge_requests?scope=all&state=opened&target_branch=''
                     @ form_encode (target_branch g))))"
proof -
  have thrown: "constructor (Some c) = Inl (ConfigError missing_api_token)
       \<or> constructor (Some c) = Inl (ConfigError missing_project_id)"
    if "cfg_api_token c = None \<or> cfg_project_id c = None"
    using that by (auto simp: constructor_def opt_field_def falsy_str_def falsy_num_def)
  have first: "constructor (Some c) = Inl (ConfigError missing_api_token)"
    if "cfg_api_token c = None"
    using that by (simp add: constructor_def opt_field_def falsy_str_def)
  have norun: "requests (main e) = [] \<and> stdout (main e) = []
            \<and> (last (stderr (main e)) = missing_api_token
               \<or> last (stderr (main e)) = missing_project_id)"
    if m: "cfg_api_token c = None \<or> cfg_project_id c = None" and cf: "config_file e = Inr (Some c)"
  proof -
    consider "constructor (Some c) = Inl (ConfigError missing_api_token)"
      | "constructor (Some c) = Inl (ConfigError missing_project_id)"
      using thrown [OF m] by blast
    then show ?thesis
    proof cases
      case 1
      show ?thesis using main_constructor_throws [OF cf 1] by simp
    next
      case 2
      show ?thesis using main_constructor_throws [OF cf 2] by simp
    qed
  qed
  have proceed: "\<exists>ws g. constructor (Some c) = Inr (ws, g)
         \<and> ''missing or empty property `authors`'' \<in> set ws
         \<and> authors g = []
         \<and> select_authors (map snd (authors g)) items = items
         \<and> (config_file e = Inr (Some c) \<longrightarrow>
               ''missing or empty property `authors`'' \<in> set (stderr (main e))
               \<and> requests (main e) \<noteq> []
               \<and> url (hd (requests (main e))) =
                   GITLAB_API_BASE @ ''/projects/'' @ toString (project_id g)
                     @ ''/merge_requests?scope=all&state=opened&target_branch=''
                     @ form_encode (target_branch g))"
    if a: "\<not> falsy_str (cfg_api_token c) \<and> \<not> falsy_num (cfg_project_id c)
        \<and> (cfg_authors c = None \<or> cfg_authors c = Some [])"
  proof -
    obtain ws0 g where c: "constructor (Some c) =
        Inr (''missing or empty property `authors`'' # ''all open project MRs will be returned'' # ws0, g)"
      and g: "authors g = []"
      using constructor_no_authors [of c] a by blast
    let ?ws = "''missing or empty property `authors`'' # ''all open project MRs will be returned'' # ws0"
    have ws: "''missing or empty property `authors`'' \<in> set ?ws"
      by simp
    have sel: "select_authors (map snd (authors g)) items = items"
      by (simp add: g select_authors_def)
    have run: "''missing or empty property `authors`'' \<in> set (stderr (main e))
               \<and> requests (main e) \<noteq> []
               \<and> url (hd (requests (main e))) =
                   GITLAB_API_BASE @ ''/projects/'' @ toString (project_id g)
                     @ ''/merge_requests?scope=all&state=opened&target_branch=''
                     @ form_encode (target_branch g)" if cf: "config_file e = Inr (Some c)"
    proof -
      have sub: "set ?ws \<subseteq> set (stderr (main e))"
        using main_proceeds [OF cf c] by (rule conjunct1)
      obtain rest where rq: "requests (main e) =
          \<lparr>url = GITLAB_API_BASE @ ''/projects/'' @ toString (project_id g)
                   @ ''/merge_requests?scope=all&state=opened&target_branch=''
                   @ form_encode (target_branch g),
            headers = [(''authorization'', ''Bearer '' @ api_token g)]\<rparr> # rest"
        using conjunct2 [OF main_proceeds [OF cf c]] unfolding prefix_def by auto
      have "''missing or empty property `authors`'' \<in> set (stderr (main e))"
        using sub ws by (rule subsetD)
      then show ?thesis
        unfolding rq by simp
    qed
    show ?thesis
      using c ws g sel run by blast
  qed
  show ?thesis
    using thrown first norun proceed by blast
qed

theorem constructor_required_fields_witness:
  "requests (main (demo_env\<lparr>config_file := Inr (Some (demo_config\<lparr>cfg_project_id := None\<rparr>))\<rparr>)) = []
   \<and> stdout (main (demo_env\<lparr>config_file := Inr (Some (demo_config\<lparr>cfg_project_id := None\<rparr>))\<rparr>)) = []
   \<and> constructor (Some (demo_config\<lparr>cfg_api_token := None\<rparr>)) = Inl (ConfigError missing_api_token)
   \<and> (\<exists>ws g. constructor (Some (demo_config\<lparr>cfg_authors := Some []\<rparr>)) = Inr (ws, g)
         \<and> authors g = []
         \<and> select_authors (map snd (authors g)) [mr_conflict, mr_clean] = [mr_conflict, mr_clean]
         \<and> requests (main (demo_env\<lparr>config_file := Inr (Some (demo_config\<lparr>cfg_authors := Some []\<rparr>))\<rparr>))
             \<noteq> [])"
proof -
  have 1: "cfg_api_token (demo_config\<lparr>cfg_project_id := None\<rparr>) = None
           \<or> cfg_project_id (demo_config\<lparr>cfg_project_id := None\<rparr>) = None"
    by simp
  have 2: "config_file (demo_env\<lparr>config_file := Inr (Some (demo_config\<lparr>cfg_project_id := None\<rparr>))\<rparr>)
           = Inr (Some (demo_config\<lparr>cfg_project_id := None\<rparr>))"
    by simp
  have 3: "cfg_api_token (demo_config\<lparr>cfg_api_token := None\<rparr>) = None"
    by simp
  have 4: "\<not> falsy_str (cfg_api_token (demo_config\<lparr>cfg_authors := Some []\<rparr>))
           \<and> \<not> falsy_num (cfg_project_id (demo_config\<lparr>cfg_authors := Some []\<rparr>))
           \<and> (cfg_authors (demo_config\<lparr>cfg_authors := Some []\<rparr>) = None
               \<or> cfg_authors (demo_config\<lparr>cfg_authors := Some []\<rparr>) = Some [])"
    by (simp add: demo_config_def falsy_str_def falsy_num_def)
  have 5: "config_file (demo_env\<lparr>config_file := Inr (Some (demo_config\<lparr>cfg_authors := Some []\<rparr>))\<rparr>)
           = Inr (Some (demo_config\<lparr>cfg_authors := Some []\<rparr>))"
    by simp
  show ?thesis
    using constructor_required_fields
            [of "demo_config\<lparr>cfg_project_id := None\<rparr>"
                "demo_env\<lparr>config_file := Inr (Some (demo_config\<lparr>cfg_project_id := None\<rparr>))\<rparr>"]
          constructor_required_fields [of "demo_config\<lparr>cfg_api_token := None\<rparr>"]
          constructor_required_fields
            [of "demo_config\<lparr>cfg_authors := Some []\<rparr>"
                "demo_env\<lparr>config_file := Inr (Some (demo_config\<lparr>cfg_authors := Some []\<rparr>))\<rparr>"
                "[mr_conflict, mr_clean]"]
          1 2 3 4 5
    by blast
qed

section \<open>The token and the output of the run\<close>

lemma same_output_refl: "same_output w w"
  by (simp add: same_output_def)

lemma same_output_log:
  "same_output w w' \<Longrightarrow> same_output (log clock w msg) (log clock w' msg)"
  by (simp add: same_output_def log_def console_warn_def)

lemma same_output_warnings:
  "same_output w w' \<Longrightarrow> same_output (foldl console_warn w ws) (foldl console_warn w' ws)"
  by (induction ws arbitrary: w w') (simp_all add: same_output_def console_warn_def)

lemma get_start_same:
  assumes "same_output w w'" and "project_id g = project_id g'"
  shows "same_output (fst (get_start clock g uri params w)) (fst (get_start clock g' uri params w'))
         \<and> snd (get_start clock g uri params w) = snd (get_start clock g' uri params w')"
  using assms by (simp add: get_start_eq Let_def same_output_def log_def console_warn_def)

lemma get_end_same:
  assumes "same_output w w'"
  shows "same_output (fst (get_end p clock u out w)) (fst (get_end p clock u out w'))"
  using assms
  by (simp add: get_end_def read_body_def Let_def same_output_def log_def console_warn_def
           split: outcome.splits option.splits)

lemma start_all_same:
  assumes "same_output w w'" and "project_id g = project_id g'"
  shows "same_output (fst (start_all clock g mrs w)) (fst (start_all clock g' mrs w'))
         \<and> snd (start_all clock g mrs w) = snd (start_all clock g' mrs w')"
  using assms(1)
proof (induction mrs arbitrary: w w')
  case Nil
  then show ?case by simp
next
  case (Cons mr mrs)
  let ?uri = "''/merge_requests/'' @ toString (iid mr) @ ''/approvals''"
  obtain w1 u where S: "get_start clock g ?uri None w = (w1, u)"
    by (cases "get_start clock g ?uri None w")
  obtain w1' u' where S': "get_start clock g' ?uri None w' = (w1', u')"
    by (cases "get_start clock g' ?uri None w'")
  obtain w2 us where A: "start_all clock g mrs w1 = (w2, us)"
    by (cases "start_all clock g mrs w1")
  obtain w2' us' where A': "start_all clock g' mrs w1' = (w2', us')"
    by (cases "start_all clock g' mrs w1'")
  have 1: "same_output w1 w1'" and 2: "u = u'"
    using get_start_same [OF Cons.prems assms(2), of clock ?uri None] S S' by simp_all
  have 3: "same_output w2 w2' \<and> us = us'"
    using Cons.IH [OF 1] A A' by simp
  have "start_all clock g (mr # mrs) w = (w2, u # us)"
    using S A by (simp add: Let_def)
  moreover have "start_all clock g' (mr # mrs) w' = (w2', u' # us')"
    using S' A' by (simp add: Let_def)
  ultimately show ?case
    using 2 3 by simp
qed

lemma settle_same:
  assumes "same_output w w'"
  shows "same_output (world_of (settle e tasks mrs w)) (world_of (settle e tasks mrs w'))
         \<and> result (settle e tasks mrs w) = result (settle e tasks mrs w')
         \<and> in_flight (settle e tasks mrs w) = in_flight (settle e tasks mrs w')"
  using assms
proof (induction tasks arbitrary: mrs w w')
  case Nil
  then show ?case by simp
next
  case (Cons t tasks)
  obtain i u where t: "t = (i, u)" by (cases t)
  let ?ge = "\<lambda>w. get_end (parse_approvals e) (now e) u (approval e i) w"
  obtain w1 r where ge: "?ge w = (w1, r)" by (cases "?ge w")
  obtain w1' r' where ge': "?ge w' = (w1', r')" by (cases "?ge w'")
  have "snd (?ge w) = snd (?ge w')"
    by (simp add: snd_get_end)
  then have r: "r' = r"
    by (simp add: ge ge')
  have 1: "same_output w1 w1'"
    using get_end_same [OF Cons.prems, of "parse_approvals e" "now e" u "approval e i"] ge ge' by simp
  show ?case
  proof (cases r)
    case (Inl err)
    then show ?thesis by (simp add: t ge ge' r 1)
  next
    case (Inr a)
    have "settle e (t # tasks) mrs w = settle e tasks (mrs[i := enrich a (mrs ! i)]) w1"
      by (simp add: t ge Inr)
    moreover have "settle e (t # tasks) mrs w' = settle e tasks (mrs[i := enrich a (mrs ! i)]) w1'"
      by (simp add: t ge' r Inr)
    ultimately show ?thesis
      using Cons.IH [OF 1] by simp
  qed
qed

lemma drain_same:
  assumes "same_output w w'"
  shows "same_output (drain e tasks w) (drain e tasks w')"
  using assms
proof (induction tasks arbitrary: w w')
  case Nil
  then show ?case by simp
next
  case (Cons t tasks)
  obtain i u where t: "t = (i, u)" by (cases t)
  show ?case
    unfolding t drain.simps
    by (rule Cons.IH) (rule get_end_same [OF Cons.prems])
qed

lemma openMergeRequests_same:
  assumes "same_output w w'" and "project_id g = project_id g'"
    and "authors g = authors g'" and "target_branch g = target_branch g'"
  shows "same_output (world_of (openMergeRequests e g w)) (world_of (openMergeRequests e g' w'))
         \<and> result (openMergeRequests e g w) = result (openMergeRequests e g' w')
         \<and> in_flight (openMergeRequests e g w) = in_flight (openMergeRequests e g' w')"
proof -
  let ?ps = "Some [(''scope'', ''all''), (''state'', ''opened''), (''target_branch'', target_branch g)]"
  let ?ps' = "Some [(''scope'', ''all''), (''state'', ''opened''), (''target_branch'', target_branch g')]"
  obtain w0 u where S: "get_start (now e) g ''/merge_requests'' ?ps w = (w0, u)"
    by (cases "get_start (now e) g ''/merge_requests'' ?ps w")
  obtain w0' u' where S': "get_start (now e) g' ''/merge_requests'' ?ps' w' = (w0', u')"
    by (cases "get_start (now e) g' ''/merge_requests'' ?ps' w'")
  have 0: "same_output w0 w0'" and u: "u = u'"
    using get_start_same [OF assms(1,2), of "now e" "''/merge_requests''" ?ps] S S' assms(4)
    by simp_all
  obtain w1 r where E: "get_end (parse_mrs e) (now e) u (listing e) w0 = (w1, r)"
    by (cases "get_end (parse_mrs e) (now e) u (listing e) w0")
  obtain w1' r' where E': "get_end (parse_mrs e) (now e) u (listing e) w0' = (w1', r')"
    by (cases "get_end (parse_mrs e) (now e) u (listing e) w0'")
  have "snd (get_end (parse_mrs e) (now e) u (listing e) w0)
        = snd (get_end (parse_mrs e) (now e) u (listing e) w0')"
    by (simp add: snd_get_end)
  then have r: "r' = r"
    by (simp add: E E')
  have 1: "same_output w1 w1'"
    using get_end_same [OF 0, of "parse_mrs e" "now e" u "listing e"] E E' by simp
  have G: "get (parse_mrs e) (now e) g ''/merge_requests'' ?ps (listing e) w = (w1, r)"
    by (simp add: get_def S E)
  have G': "get (parse_mrs e) (now e) g' ''/merge_requests'' ?ps' (listing e) w' = (w1', r)"
    using S' E' u r by (simp add: get_def)
  show ?thesis
  proof (cases r)
    case (Inl err)
    then show ?thesis
      using G G' 1 by (simp add: openMergeRequests_def)
  next
    case (Inr all_mrs)
    let ?mrs = "select_authors (map snd (authors g)) all_mrs"
    obtain w2 us where A: "start_all (now e) g ?mrs w1 = (w2, us)"
      by (cases "start_all (now e) g ?mrs w1")
    obtain w2' us' where A': "start_all (now e) g' ?mrs w1' = (w2', us')"
      by (cases "start_all (now e) g' ?mrs w1'")
    have 2: "same_output w2 w2'" and us: "us' = us"
      using start_all_same [OF 1 assms(2), of "now e" ?mrs] A A' by simp_all
    let ?tasks = "map (\<lambda>i. (i, us ! i)) (completion_order (length ?mrs) (completion e))"
    have O: "openMergeRequests e g w = settle e ?tasks ?mrs w2"
      using G A Inr by (simp add: openMergeRequests_def Let_def)
    have O': "openMergeRequests e g' w' = settle e ?tasks ?mrs w2'"
      using G' A' Inr us assms(3) by (simp add: openMergeRequests_def Let_def)
    show ?thesis
      unfolding O O' by (rule settle_same [OF 2])
  qed
qed

lemma settle_config_file: "settle (e\<lparr>config_file := x\<rparr>) tasks mrs w = settle e tasks mrs w"
proof (induction tasks arbitrary: mrs w)
  case Nil
  show ?case by simp
next
  case (Cons t tasks)
  obtain i u where t: "t = (i, u)" by (cases t)
  show ?case
    by (simp add: t Cons.IH split: prod.splits sum.splits)
qed

lemma drain_config_file: "drain (e\<lparr>config_file := x\<rparr>) tasks w = drain e tasks w"
proof (induction tasks arbitrary: w)
  case Nil
  show ?case by simp
next
  case (Cons t tasks)
  obtain i u where t: "t = (i, u)" by (cases t)
  show ?case
    by (simp add: t Cons.IH)
qed

lemma openMergeRequests_config_file:
  "openMergeRequests (e\<lparr>config_file := x\<rparr>) g w = openMergeRequests e g w"
  by (simp add: openMergeRequests_def settle_config_file)


lemma constructor_token:
  assumes "t \<noteq> []" and "t' \<noteq> []"
  shows "(\<exists>err. constructor (Some (c\<lparr>cfg_api_token := Some t\<rparr>)) = Inl err
                \<and> constructor (Some (c\<lparr>cfg_api_token := Some t'\<rparr>)) = Inl err)
         \<or> (\<exists>ws g. constructor (Some (c\<lparr>cfg_api_token := Some t\<rparr>)) = Inr (ws, g\<lparr>api_token := t\<rparr>)
                \<and> constructor (Some (c\<lparr>cfg_api_token := Some t'\<rparr>)) = Inr (ws, g\<lparr>api_token := t'\<rparr>))"
proof (cases "falsy_num (cfg_project_id c)")
  case True
  then show ?thesis
    using assms by (simp add: constructor_def opt_field_def falsy_str_def)
next
  case False
  define ws where "ws =
     (if (case cfg_authors c of None \<Rightarrow> True | Some a \<Rightarrow> length a < 1)
      then [''missing or empty property `authors`'', ''all open project MRs will be returned'']
      else [])
     @ (if falsy_str (cfg_target_branch c)
        then [''Configuration missing branch name; defaulting to main''] else [])"
  define g where "g =
     \<lparr>api_token = [],
      authors = (case cfg_authors c of None \<Rightarrow> [] | Some a \<Rightarrow> a),
      project_id = (case cfg_project_id c of None \<Rightarrow> 0 | Some n \<Rightarrow> n),
      target_branch = (case cfg_target_branch c of None \<Rightarrow> ''main'' | Some b \<Rightarrow> b)\<rparr>"
  have "constructor (Some (c\<lparr>cfg_api_token := Some x\<rparr>)) = Inr (ws, g\<lparr>api_token := x\<rparr>)"
    if "x \<noteq> []" for x
    using that False
    by (simp add: constructor_def opt_field_def falsy_str_def Let_def ws_def g_def)
  then show ?thesis
    using assms by blast
qed

lemma report_token: "report (g\<lparr>api_token := t\<rparr>) enriched = report g enriched"
  by (simp add: report_def)

lemma main_same:
  assumes "t \<noteq> []" and "t' \<noteq> []"
  shows "same_output (main (e\<lparr>config_file := Inr (Some (c\<lparr>cfg_api_token := Some t\<rparr>))\<rparr>))
           (main (e\<lparr>config_file := Inr (Some (c\<lparr>cfg_api_token := Some t'\<rparr>))\<rparr>))"
proof -
  let ?c = "\<lambda>x. Some (c\<lparr>cfg_api_token := Some x\<rparr>)"
  let ?e = "\<lambda>x. e\<lparr>config_file := Inr (?c x)\<rparr>"
  consider err where "constructor (?c t) = Inl err" and "constructor (?c t') = Inl err"
    | ws g where "constructor (?c t) = Inr (ws, g\<lparr>api_token := t\<rparr>)"
        and "constructor (?c t') = Inr (ws, g\<lparr>api_token := t'\<rparr>)"
    using constructor_token [OF assms, of c] by blast
  then show ?thesis
  proof cases
    case 1
    then have "main (?e t) = main (?e t')"
      by (simp add: main_def Let_def)
    then show ?thesis
      by (simp add: same_output_refl)
  next
    case 2
    let ?w2 = "log (now e)
                 (foldl console_warn
                    (log (now e) \<lparr>stdout = [], stderr = [], requests = []\<rparr>
                       (''Checking for configuration file '' @ rc_path e)) ws)
                 (inspect e (authors g) (project_id g) (target_branch g))"
    let ?r = "\<lambda>x. openMergeRequests e (g\<lparr>api_token := x\<rparr>) ?w2"
    have rel: "same_output (world_of (?r t)) (world_of (?r t'))"
      and res: "result (?r t') = result (?r t)"
      and fl: "in_flight (?r t') = in_flight (?r t)"
      using openMergeRequests_same [OF same_output_refl, of "g\<lparr>api_token := t\<rparr>"
              "g\<lparr>api_token := t'\<rparr>" e ?w2]
      by simp_all
    show ?thesis
    proof (cases "result (?r t)")
      case (Inl err)
      have m1: "main (?e t) =
                 drain e (in_flight (?r t)) (console_error (world_of (?r t)) (message err))"
        using 2(1) Inl
        by (simp add: main_def Let_def openMergeRequests_config_file drain_config_file)
      have m2: "main (?e t') =
                 drain e (in_flight (?r t)) (console_error (world_of (?r t')) (message err))"
        using 2(2) Inl res fl
        by (simp add: main_def Let_def openMergeRequests_config_file drain_config_file)
      have "same_output (console_error (world_of (?r t)) (message err))
              (console_error (world_of (?r t')) (message err))"
        using rel by (simp add: same_output_def console_error_def)
      then show ?thesis
        unfolding m1 m2 by (rule drain_same)
    next
      case (Inr enriched)
      let ?fin = "\<lambda>w. (let w3 = console_warn w
                      (NL @ ''Output can safely be piped to clipboard.'' @ NL);
               w4 = console_warn w3 (''E.g., for macOS: mrstat | pbcopy'' @ NL);
               w5 = (if isTTY e then console_warn w4 ''===== BEGIN MARKDOWN ====='' else w4);
               w6 = console_log w5 (report g enriched);
               w7 = (if isTTY e
                     then console_warn w6 (''===== END MARKDOWN ====='' @ NL) else w6)
           in w7)"
      have m1: "main (?e t) = ?fin (world_of (?r t))"
        using 2(1) Inr
        by (simp add: main_def Let_def openMergeRequests_config_file report_token)
      have m2: "main (?e t') = ?fin (world_of (?r t'))"
        using 2(2) Inr res
        by (simp add: main_def Let_def openMergeRequests_config_file report_token)
      show ?thesis
        unfolding m1 m2
        using rel by (simp add: Let_def same_output_def console_warn_def console_log_def)
    qed
  qed
qed

lemma get_same:
  "same_output (fst (get p clock (g\<lparr>api_token := t\<rparr>) uri params out w))
     (fst (get p clock g uri params out w))"
proof -
  obtain w1 u where S: "get_start clock (g\<lparr>api_token := t\<rparr>) uri params w = (w1, u)"
    by (cases "get_start clock (g\<lparr>api_token := t\<rparr>) uri params w")
  obtain w1' u' where S': "get_start clock g uri params w = (w1', u')"
    by (cases "get_start clock g uri params w")
  have 1: "same_output w1 w1'" and u: "u' = u"
    using get_start_same [OF same_output_refl, of "g\<lparr>api_token := t\<rparr>" g clock uri params w] S S'
    by simp_all
  show ?thesis
    using get_end_same [OF 1, of p clock u out] by (simp add: get_def S S' u)
qed

lemma get_world:
  "requests (fst (get p clock g uri params out w)) =
     requests w @
       [\<lparr>url = GITLAB_API_BASE @ ''/projects/'' @ toString (project_id g) @ uri
                @ (if URLSearchParams_toString params = [] then []
                   else ''?'' @ URLSearchParams_toString params),
         headers = [(''authorization'', ''Bearer '' @ api_token g)]\<rparr>]
   \<and> stderr (fst (get p clock g uri params out w)) =
       stderr w
       @ [''['' @ padStart 5 (toString (clock (length (stderr w)))) @ ''ms] '' @ uri
            @ (if URLSearchParams_toString params = [] then []
               else ''?'' @ URLSearchParams_toString params)
            @ '' - requesting...'']
       @ (case out of
            NetError m \<Rightarrow> []
          | Response sc data \<Rightarrow>
              if (case sc of None \<Rightarrow> False | Some s \<Rightarrow> s \<noteq> 0 \<and> (s < 200 \<or> 300 \<le> s)) then []
              else [''['' @ padStart 5 (toString (clock (Suc (length (stderr w))))) @ ''ms] '' @ uri
                      @ (if URLSearchParams_toString params = [] then []
                         else ''?'' @ URLSearchParams_toString params)
                      @ '' - received '' @ toString (int (length data)) @ '' bytes.''])"
  by (simp add: get_def get_start_eq get_end_def read_body_def Let_def stderr_log requests_log
           split: outcome.splits option.splits)

text \<open>
  Claim C8. The token reaches only the \<open>authorization\<close> header. For every request
  of \<open>#get\<close>: the URL is the base, the path and the query; the lines written to
  standard error are the line before the request and, when the body was read, the
  line after it, each made of the clock reading, the path and query relative to the
  base and, for the second, the length of the body; the rejection on the status code
  has the message \<open>statusCode=\<close> followed by the number. Replacing the token by any
  other changes neither these lines nor the URL nor the way the promise settles, for
  the same outcome of the request; and two runs of the program that differ only in
  the (non-empty) token of the configuration show the same output, for the same
  outcomes of their requests.
\<close>

theorem token_only_in_header:
  "requests (fst (get p clock g uri params out w)) =
     requests w @
       [\<lparr>url = GITLAB_API_BASE @ ''/projects/'' @ toString (project_id g) @ uri
                @ (if URLSearchParams_toString params = [] then []
                   else ''?'' @ URLSearchParams_toString params),
         headers = [(''authorization'', ''Bearer '' @ api_token g)]\<rparr>]
   \<and> stderr (fst (get p clock g uri params out w)) =
       stderr w
       @ [''['' @ padStart 5 (toString (clock (length (stderr w)))) @ ''ms] '' @ uri
            @ (if URLSearchParams_toString params = [] then []
               else ''?'' @ URLSearchParams_toString params)
            @ '' - requesting...'']
       @ (case out of
            NetError m \<Rightarrow> []
          | Response sc data \<Rightarrow>
              if (case sc of None \<Rightarrow> False | Some s \<Rightarrow> s \<noteq> 0 \<and> (s < 200 \<or> 300 \<le> s)) then []
              else [''['' @ padStart 5 (toString (clock (Suc (length (stderr w))))) @ ''ms] '' @ uri
                      @ (if URLSearchParams_toString params = [] then []
                         else ''?'' @ URLSearchParams_toString params)
                      @ '' - received '' @ toString (int (length data)) @ '' bytes.''])
   \<and> (s \<noteq> 0 \<and> (s < 200 \<or> 300 \<le> s) \<longrightarrow>
        (\<exists>err. snd (get p clock g uri params (Response (Some s) body) w) = Inl err
              \<and> message err = ''statusCode='' @ toString s))
   \<and> same_output (fst (get p clock (g\<lparr>api_token := t\<rparr>) uri params out w))
        (fst (get p clock g uri params out w))
   \<and> snd (get p clock (g\<lparr>api_token := t\<rparr>) uri params out w) = snd (get p clock g uri params out w)
   \<and> (t \<noteq> [] \<and> t' \<noteq> [] \<longrightarrow>
        same_output (main (e\<lparr>config_file := Inr (Some (c\<lparr>cfg_api_token := Some t\<rparr>))\<rparr>))
          (main (e\<lparr>config_file := Inr (Some (c\<lparr>cfg_api_token := Some t'\<rparr>))\<rparr>)))"
proof -
  have status: "\<exists>err. snd (get p clock g uri params (Response (Some s) body) w) = Inl err
              \<and> message err = ''statusCode='' @ toString s"
    if "s \<noteq> 0 \<and> (s < 200 \<or> 300 \<le> s)"
    using that by (simp add: snd_get settles_as_Some)
  have res: "snd (get p clock (g\<lparr>api_token := t\<rparr>) uri params out w) = snd (get p clock g uri params out w)"
    by (simp add: snd_get)
  show ?thesis
    using get_world [of p clock g uri params out w] status res
          get_same [where p = p and clock = clock and g = g and t = t and uri = uri
                      and params = params and out = out and w = w]
          main_same [where t = t and t' = t' and e = e and c = c]
    by blast
qed

lemma toString_small: "toString 0 = ''0''" "toString 1 = ''1''" "toString 5 = ''5''"
  by (simp_all add: toString_def digits.simps [of 0] digits.simps [of 1] digits.simps [of "Suc 0"]
        digits.simps [of 5])

theorem token_only_in_header_witness:
  "stderr (fst (get (parse_mrs demo_env) (now demo_env) demo_gitlab ''/merge_requests''
                 (Some [(''scope'', ''all''), (''state'', ''opened''), (''target_branch'', ''main'')])
                 (Response (Some 200) ''[mrs]'') demo_world)) =
     [''[    0ms] /merge_requests?scope=all&state=opened&target_branch=main - requesting...'',
      ''[    1ms] /merge_requests?scope=all&state=opened&target_branch=main - received 5 bytes.'']
   \<and> same_output
        (main (demo_env\<lparr>config_file := Inr (Some (demo_config\<lparr>cfg_api_token := Some ''SECRET''\<rparr>))\<rparr>))
        (main (demo_env\<lparr>config_file := Inr (Some (demo_config\<lparr>cfg_api_token := Some ''OTHER''\<rparr>))\<rparr>))"
proof -
  have q: "URLSearchParams_toString
             (Some [(''scope'', ''all''), (''state'', ''opened''), (''target_branch'', ''main'')]) =
           ''scope=all&state=opened&target_branch=main''"
    by (simp add: URLSearchParams_toString_def form_encode_def form_safe_def)
  have t: "''SECRET'' \<noteq> [] \<and> ''OTHER'' \<noteq> []"
    by simp
  have clock: "now demo_env 0 = 0" "now demo_env (Suc 0) = 1"
    by (simp_all add: demo_env_def)
  have "stderr (fst (get (parse_mrs demo_env) (now demo_env) demo_gitlab ''/merge_requests''
                 (Some [(''scope'', ''all''), (''state'', ''opened''), (''target_branch'', ''main'')])
                 (Response (Some 200) ''[mrs]'') demo_world)) =
     [''[    0ms] /merge_requests?scope=all&state=opened&target_branch=main - requesting...'',
      ''[    1ms] /merge_requests?scope=all&state=opened&target_branch=main - received 5 bytes.'']"
    using token_only_in_header [of "parse_mrs demo_env" "now demo_env" demo_gitlab "''/merge_requests''"
            "Some [(''scope'', ''all''), (''state'', ''opened''), (''target_branch'', ''main'')]"
            "Response (Some 200) ''[mrs]''" demo_world]
    by (simp add: q clock demo_world_def toString_small padStart_def eval_nat_numeral)
  moreover have "same_output
        (main (demo_env\<lparr>config_file := Inr (Some (demo_config\<lparr>cfg_api_token := Some ''SECRET''\<rparr>))\<rparr>))
        (main (demo_env\<lparr>config_file := Inr (Some (demo_config\<lparr>cfg_api_token := Some ''OTHER''\<rparr>))\<rparr>))"
    using token_only_in_header [where t = "''SECRET''" and t' = "''OTHER''" and e = demo_env
            and c = demo_config] t
    by blast
  ultimately show ?thesis
    by simp
qed

end
